theory Spec2Isabelle
  imports Complex_Main "HOL-Library.Sublist" "HOL-Library.Multiset"
begin

section \<open>Data model\<close>

text \<open>
  A pandas timestamp is a count of nanoseconds since the epoch. A date-only key is a
  timestamp at midnight, that is a multiple of \<open>day_ns\<close>.
\<close>

type_synonym timestamp = int

definition day_ns :: int where
  "day_ns = 86400000000000"

text \<open>
  A float64 cell. Arithmetic is exact on the finite values (rounding, overflow and the
  sign of zero are outside the model); \<open>NaN\<close> is pandas' missing value and \<open>Infty s\<close> is
  the infinity of sign \<open>s\<close> (\<open>True\<close> for positive).
\<close>

datatype val = NaN | Fin real | Infty bool

text \<open>
  A Series or the rows of a DataFrame: index labels paired with the row, in position
  order. A Price Series is a \<open>'b series\<close> whose rows are bars of one fixed schema.
\<close>

type_synonym 'b series = "(timestamp \<times> 'b) list"

text \<open>
  A DataFrame: its column labels and its rows. A row gives the cell of every column label;
  only the cells at labels in \<open>columns\<close> carry meaning. Labels are taken to be unique
  on an axis that is looked up by label, as the tables of the data model are. The cells of
  a \<open>frame\<close> are float64; a provider's response has cells of whatever it sent.
\<close>

record 'c table =
  columns :: "string list"
  rows :: "(string \<Rightarrow> 'c) series"

type_synonym frame = "val table"

section \<open>Price cache: \<open>algo/data/prices.py\<close>\<close>

subsection \<open>Cache file names\<close>

definition replace_char :: "char \<Rightarrow> char \<Rightarrow> string \<Rightarrow> string" where
  "replace_char a b s = map (\<lambda>c. if c = a then b else c) s"

text \<open>\<open>_asset_key_to_filename\<close>: nine single-character replacements, in the source's order.\<close>

definition asset_key_to_filename :: "string \<Rightarrow> string" where
  "asset_key_to_filename asset_key =
     (replace_char (CHR ''|'') (CHR ''_'')
     (replace_char (CHR ''>'') (CHR ''_'')
     (replace_char (CHR ''<'') (CHR ''_'')
     (replace_char (CHR 0x22) (CHR ''_'')
     (replace_char (CHR ''?'') (CHR ''_'')
     (replace_char (CHR ''*'') (CHR ''_'')
     (replace_char (CHR '':'') (CHR ''_'')
     (replace_char (CHR 0x5C) (CHR ''_'')
     (replace_char (CHR ''/'') (CHR ''_'') asset_key)))))))))"

datatype provider = Stooq | Yahoo

fun provider_name :: "provider \<Rightarrow> string" where
  "provider_name Stooq = ''stooq''"
| "provider_name Yahoo = ''yahoo''"

text \<open>A path is its list of components; \<open>data_dir\<close> is \<open>settings.data_dir\<close>.\<close>

type_synonym path = "string list"

definition raw_cache_dir :: "path \<Rightarrow> provider \<Rightarrow> path" where
  "raw_cache_dir data_dir p = data_dir @ [''raw_prices'', provider_name p]"

definition raw_cache_path :: "path \<Rightarrow> provider \<Rightarrow> string \<Rightarrow> path" where
  "raw_cache_path data_dir p asset_key =
     raw_cache_dir data_dir p @ [asset_key_to_filename asset_key @ ''.parquet'']"

subsection \<open>Sorting and deduplication of a series\<close>

text \<open>
  \<open>sort_index()\<close>: rows in ascending order of their label. The source sorts with
  pandas' default kind, quicksort, which is not stable: the order it leaves rows of equal
  label in depends on the whole index. That order is the parameter \<open>tie\<close> of the
  model: \<open>tie idx i\<close> ranks the row at position \<open>i\<close> of an index \<open>idx\<close> among
  the rows of its label. Rows are ordered by label, rows of equal label by rank, and rows
  of equal label and rank by position. \<open>stable_ties\<close> is the order of a stable sort.
\<close>

type_synonym tie_order = "timestamp list \<Rightarrow> nat \<Rightarrow> nat"

definition sort_index :: "tie_order \<Rightarrow> 'b series \<Rightarrow> 'b series" where
  "sort_index tie df =
     sort_key fst
       (map snd (sort_key (\<lambda>(i, x). tie (map fst df) i) (zip [0..<length df] df)))"

definition stable_ties :: tie_order where
  "stable_ties idx i = i"

text \<open>
  \<open>df[~df.index.duplicated(keep="last")]\<close>: a row is kept unless a later row has the
  same label.
\<close>

fun drop_duplicated_last :: "'b series \<Rightarrow> 'b series" where
  "drop_duplicated_last [] = []"
| "drop_duplicated_last (x # xs) =
     (if fst x \<in> fst ` set xs then drop_duplicated_last xs
      else x # drop_duplicated_last xs)"

subsection \<open>Merge engine\<close>

text \<open>\<open>merge_prices\<close>; \<open>pd.to_datetime\<close> is the identity on an index of timestamps.\<close>

definition merge_prices ::
  "tie_order \<Rightarrow> 'b series option \<Rightarrow> 'b series \<Rightarrow> 'b series" where
  "merge_prices tie existing new =
     (let new1 = drop_duplicated_last (sort_index tie new)
      in case existing of
           None \<Rightarrow> new1
         | Some e \<Rightarrow> drop_duplicated_last (sort_index tie (e @ new1)))"

subsection \<open>Cache store\<close>

text \<open>
  The storage: the parquet files, each holding a series, and the directories that exist.
\<close>

record 'b storage =
  files :: "path \<rightharpoonup> 'b series"
  dirs :: "path set"

text \<open>\<open>base.mkdir(parents=True, exist_ok=True)\<close> in \<open>raw_cache_path\<close>.\<close>

definition mkdir_parents :: "path \<Rightarrow> 'b storage \<Rightarrow> 'b storage" where
  "mkdir_parents base st = st\<lparr>dirs := dirs st \<union> set (prefixes base)\<rparr>"

datatype error =
    Raised string
  | UnknownAsset string
  | NoIdentifier string string
  | AllProvidersFailed "error option"
  | SchemaError "string list" "string list"
  | EmptyInput

text \<open>
  \<open>read_cache\<close>: absent when no file exists; otherwise the file's series, sorted and
  deduplicated. It returns the storage too, since \<open>raw_cache_path\<close> creates the directory.
\<close>

definition read_cache ::
  "tie_order \<Rightarrow> path \<Rightarrow> provider \<Rightarrow> string \<Rightarrow> 'b storage
     \<Rightarrow> 'b series option \<times> 'b storage" where
  "read_cache tie data_dir p asset_key st =
     (let st1 = mkdir_parents (raw_cache_dir data_dir p) st
      in case files st1 (raw_cache_path data_dir p asset_key) of
           None \<Rightarrow> (None, st1)
         | Some df \<Rightarrow> (Some (drop_duplicated_last (sort_index tie df)), st1))"

text \<open>
  \<open>to_parquet\<close> is the library's file write: given the series, the path and the
  storage, it returns the error it raised, if any, and the storage it leaves behind.
  \<open>to_parquet_ok\<close> is the write that succeeds.
\<close>

type_synonym 'b writer = "'b series \<Rightarrow> path \<Rightarrow> 'b storage \<Rightarrow> error option \<times> 'b storage"

definition to_parquet_ok :: "'b writer" where
  "to_parquet_ok df p st = (None, st\<lparr>files := (files st)(p \<mapsto> df)\<rparr>)"

definition write_cache ::
  "tie_order \<Rightarrow> 'b writer \<Rightarrow> path \<Rightarrow> provider \<Rightarrow> string \<Rightarrow> 'b series
     \<Rightarrow> 'b storage
     \<Rightarrow> error option \<times> 'b storage" where
  "write_cache tie to_parquet data_dir p asset_key df st =
     (let st1 = mkdir_parents (raw_cache_dir data_dir p) st;
          out = drop_duplicated_last (sort_index tie df)
      in to_parquet out (raw_cache_path data_dir p asset_key) st1)"

subsection \<open>Provider fallback controller\<close>

text \<open>
  The registry of \<open>algo/symbols/registry.py\<close>: an asset key gives the asset's
  \<open>identifiers\<close>, a dictionary from provider name to symbol. \<open>has_identifier\<close>
  raises \<open>KeyError\<close> for a key the registry does not know.
\<close>

type_synonym registry = "string \<rightharpoonup> (string \<rightharpoonup> string)"


text \<open>
  What the cache update reads from its surroundings: the registry, \<open>settings.data_dir\<close>,
  the order the library's sort leaves equal labels in, the outcome of \<open>fetch_stooq_daily\<close> and \<open>fetch_yahoo_daily\<close> for an asset key (the
  normalized series, or the exception raised), and the file write.
\<close>

record 'b env =
  registry :: registry
  data_dir :: path
  ties :: tie_order
  fetch_daily :: "provider \<Rightarrow> string \<Rightarrow> error + 'b series"
  to_parquet :: "'b writer"
















subsection \<open>Frames\<close>

text \<open>
  \<open>DatetimeIndex.normalize()\<close> sets the time of day to midnight. \<open>df.empty\<close> holds
  when an axis has length zero. \<open>df[cs]\<close> selects columns and raises \<open>KeyError\<close> when
  one is absent; \<open>df[name] = ...\<close> sets a column, appending it when it is new;
  \<open>dropna(subset=[c])\<close> drops the rows whose cell at \<open>c\<close> is missing.
\<close>

definition normalize_date :: "timestamp \<Rightarrow> timestamp" where
  "normalize_date t = t - t mod day_ns"

definition df_empty :: "'c table \<Rightarrow> bool" where
  "df_empty df = (rows df = [] \<or> columns df = [])"

definition has_columns :: "string list \<Rightarrow> 'c table \<Rightarrow> bool" where
  "has_columns cs df = list_all (\<lambda>c. c \<in> set (columns df)) cs"

definition getitem_columns :: "string list \<Rightarrow> 'c table \<Rightarrow> error + 'c table" where
  "getitem_columns cs df =
     (if has_columns cs df then Inr \<lparr>columns = cs, rows = rows df\<rparr>
      else Inl (Raised ''KeyError''))"

definition setitem_column :: "string \<Rightarrow> ((string \<Rightarrow> 'c) \<Rightarrow> 'c) \<Rightarrow> 'c table \<Rightarrow> 'c table" where
  "setitem_column name f df =
     \<lparr>columns = (if name \<in> set (columns df) then columns df else columns df @ [name]),
      rows = map (\<lambda>(t, r). (t, r(name := f r))) (rows df)\<rparr>"

definition dropna_subset :: "string \<Rightarrow> frame \<Rightarrow> frame" where
  "dropna_subset c df = df\<lparr>rows := filter (\<lambda>(t, r). r c \<noteq> NaN) (rows df)\<rparr>"

subsection \<open>Canonicalization\<close>

text \<open>\<open>_canonicalize_ohlcv\<close>; \<open>ohlcv_cols\<close> names its list \<open>cols\<close> for the statements.\<close>

definition ohlcv_cols :: "string list" where
  "ohlcv_cols = [''open'', ''high'', ''low'', ''close'', ''volume'']"

definition canonicalize_ohlcv :: "'c table \<Rightarrow> error + 'c table" where
  "canonicalize_ohlcv df =
     (let cols = [''open'', ''high'', ''low'', ''close'', ''volume''];
          out = df;
          missing = filter (\<lambda>c. c \<notin> set (columns out)) cols
      in if missing \<noteq> [] then Inl (SchemaError missing (columns out))
         else let out1 = (if ''adj_close'' \<notin> set (columns out)
                          then setitem_column ''adj_close'' (\<lambda>r. r ''close'') out
                          else out)
              in getitem_columns (cols @ [''adj_close'']) out1)"

subsection \<open>Provider clients\<close>

text \<open>\<open>get_identifier\<close> of the registry: \<open>KeyError\<close> for an unknown key or identifier.\<close>

definition get_identifier :: "registry \<Rightarrow> string \<Rightarrow> string \<Rightarrow> error + string" where
  "get_identifier reg key identifier =
     (case reg key of
        None \<Rightarrow> Inl (UnknownAsset key)
      | Some identifiers \<Rightarrow>
          (case identifiers identifier of
             None \<Rightarrow> Inl (NoIdentifier key identifier)
           | Some symbol \<Rightarrow> Inr symbol))"

text \<open>
  Both fetchers build \<open>out\<close> from five columns of the response, each through
  \<open>pd.to_numeric(errors="coerce")\<close>, here the parameter \<open>to_numeric\<close> applied cell by
  cell; a column the response lacks raises \<open>KeyError\<close>.
\<close>

definition provider_columns :: "('r \<Rightarrow> val) \<Rightarrow> (string \<Rightarrow> 'r) \<Rightarrow> string \<Rightarrow> val" where
  "provider_columns to_numeric r c =
     (if c = ''open'' then to_numeric (r ''Open'')
      else if c = ''high'' then to_numeric (r ''High'')
      else if c = ''low'' then to_numeric (r ''Low'')
      else if c = ''close'' then to_numeric (r ''Close'')
      else if c = ''volume'' then to_numeric (r ''Volume'')
      else NaN)"

definition ohlcv_frame :: "('r \<Rightarrow> val) \<Rightarrow> 'r table \<Rightarrow> error + frame" where
  "ohlcv_frame to_numeric df =
     (if has_columns [''Open'', ''High'', ''Low'', ''Close'', ''Volume''] df
      then Inr \<lparr>columns = [''open'', ''high'', ''low'', ''close'', ''volume''],
                rows = map (\<lambda>(t, r). (t, provider_columns to_numeric r)) (rows df)\<rparr>
      else Inl (Raised ''KeyError''))"

text \<open>\<open>out["adj_close"] = pd.to_numeric(df["Adj Close"], errors="coerce")\<close>, row by row.\<close>

definition with_adj_close :: "('r \<Rightarrow> val) \<Rightarrow> 'r table \<Rightarrow> frame \<Rightarrow> frame" where
  "with_adj_close to_numeric df out =
     \<lparr>columns = columns out @ [''adj_close''],
      rows = map2 (\<lambda>(t, r) (t0, r0). (t, r(''adj_close'' := to_numeric (r0 ''Adj Close''))))
               (rows out) (rows df)\<rparr>"

text \<open>
  The body of \<open>fetch_stooq_daily\<close> after the request: \<open>df\<close> is the parsed CSV.
  \<open>to_datetime\<close> parses a cell of the \<open>Date\<close> column and gives \<open>None\<close> where
  \<open>pd.to_datetime\<close> raises. The frame is indexed by the parsed dates, sorted, and its
  index is normalized to midnight; rows without a close are dropped.
\<close>

definition stooq_frame ::
  "tie_order \<Rightarrow> ('r \<Rightarrow> timestamp option) \<Rightarrow> ('r \<Rightarrow> val) \<Rightarrow> 'r table
     \<Rightarrow> error + frame" where
  "stooq_frame tie to_datetime to_numeric df =
     (if ''Date'' \<notin> set (columns df) then Inl (Raised ''KeyError'')
      else if \<not> list_all (\<lambda>(i, r). to_datetime (r ''Date'') \<noteq> None) (rows df)
      then Inl (Raised ''ValueError'')
      else
        let df1 = \<lparr>columns = removeAll ''Date'' (columns df),
                   rows = sort_index tie
                     (map (\<lambda>(i, r). (the (to_datetime (r ''Date'')), r)) (rows df))\<rparr>;
            df2 = df1\<lparr>rows := map (\<lambda>(t, r). (normalize_date t, r)) (rows df1)\<rparr>
        in case ohlcv_frame to_numeric df2 of
             Inl e \<Rightarrow> Inl e
           | Inr out \<Rightarrow> Inr (dropna_subset ''close'' out))"

text \<open>
  What \<open>yf.download\<close> returns: nothing, a frame with flat columns, or a frame whose
  columns carry a \<open>Ticker\<close> level, given as the frame of each ticker.
\<close>

datatype 'r ydownload = NoFrame | Flat "'r table" | ByTicker "(string \<times> 'r table) list"

fun ydownload_empty :: "'r ydownload \<Rightarrow> bool" where
  "ydownload_empty NoFrame = True"
| "ydownload_empty (Flat df) = df_empty df"
| "ydownload_empty (ByTicker ts) =
     (list_all (\<lambda>(k, df). rows df = []) ts \<or> list_all (\<lambda>(k, df). columns df = []) ts)"

fun ticker_slice :: "string \<Rightarrow> 'r ydownload \<Rightarrow> error + 'r table" where
  "ticker_slice yahoo_symbol (ByTicker ts) =
     (case map_of ts yahoo_symbol of
        None \<Rightarrow> Inl (Raised ''KeyError'')
      | Some df \<Rightarrow> Inr df)"
| "ticker_slice yahoo_symbol (Flat df) = Inr df"
| "ticker_slice yahoo_symbol NoFrame = Inl (Raised ''ValueError: No Yahoo data'')"

text \<open>
  The body of \<open>fetch_yahoo_daily\<close> after the download. The index of \<open>out\<close> is
  \<open>pd.to_datetime(df.index)\<close>, the timestamps as they came; it is sorted, and rows
  without a close are dropped.
\<close>

definition yahoo_frame ::
  "tie_order \<Rightarrow> ('r \<Rightarrow> val) \<Rightarrow> string \<Rightarrow> 'r ydownload \<Rightarrow> error + frame" where
  "yahoo_frame tie to_numeric yahoo_symbol dl =
     (if ydownload_empty dl then Inl (Raised ''ValueError: No Yahoo data'')
      else case ticker_slice yahoo_symbol dl of
             Inl e \<Rightarrow> Inl e
           | Inr df \<Rightarrow>
               (case ohlcv_frame to_numeric df of
                  Inl e \<Rightarrow> Inl e
                | Inr out \<Rightarrow>
                    (let out1 = (if ''Adj Close'' \<in> set (columns df)
                                 then with_adj_close to_numeric df out else out);
                         out2 = out1\<lparr>rows := sort_index tie (rows out1)\<rparr>
                     in Inr (dropna_subset ''close'' out2))))"

text \<open>
  The network side: the CSV a request to stooq returns for a symbol (or the exception of
  the request), the download from yahoo, and the two parsers of pandas.
\<close>

record 'r net =
  get_csv :: "string \<Rightarrow> error + 'r table"
  download :: "string \<Rightarrow> error + 'r ydownload"
  to_datetime :: "'r \<Rightarrow> timestamp option"
  to_numeric :: "'r \<Rightarrow> val"

definition fetch_stooq_daily ::
  "tie_order \<Rightarrow> registry \<Rightarrow> 'r net \<Rightarrow> string \<Rightarrow> error + frame" where
  "fetch_stooq_daily tie reg net asset_key =
     (case get_identifier reg asset_key ''stooq'' of
        Inl e \<Rightarrow> Inl e
      | Inr stooq_symbol \<Rightarrow>
          (case get_csv net stooq_symbol of
             Inl e \<Rightarrow> Inl e
           | Inr df \<Rightarrow> stooq_frame tie (to_datetime net) (to_numeric net) df))"

definition fetch_yahoo_daily ::
  "tie_order \<Rightarrow> registry \<Rightarrow> 'r net \<Rightarrow> string \<Rightarrow> error + frame" where
  "fetch_yahoo_daily tie reg net asset_key =
     (case get_identifier reg asset_key ''yahoo'' of
        Inl e \<Rightarrow> Inl e
      | Inr yahoo_symbol \<Rightarrow>
          (case download net yahoo_symbol of
             Inl e \<Rightarrow> Inl e
           | Inr dl \<Rightarrow> yahoo_frame tie (to_numeric net) yahoo_symbol dl))"

text \<open>
  A date-only key has no time of day. \<open>intraday_response\<close> is a download with one bar
  stamped 01:00 on day 19723 (2024-01-01); \<open>bar_frame\<close> is a frame of one bar.
\<close>

definition date_only :: "timestamp \<Rightarrow> bool" where
  "date_only t = (t mod day_ns = 0)"

definition intraday_response :: "val ydownload" where
  "intraday_response =
     Flat \<lparr>columns = [''Open'', ''High'', ''Low'', ''Close'', ''Volume''],
           rows = [(19723 * day_ns + 3600000000000, \<lambda>c. Fin 100)]\<rparr>"

definition bar_frame :: frame where
  "bar_frame = \<lparr>columns = [''open'', ''high'', ''low'', ''close'', ''volume''],
                rows = [(0, \<lambda>c. Fin 1)]\<rparr>"

subsection \<open>Reading a series by date\<close>

text \<open>The set of dates of a series, and the bar of the last row that carries a date.\<close>

definition dates :: "'b series \<Rightarrow> timestamp set" where
  "dates a = fst ` set a"

definition last_bar :: "'b series \<Rightarrow> timestamp \<Rightarrow> 'b option" where
  "last_bar a = map_of (rev a)"

text \<open>
  The specification's \<open>dedup(sort(a))\<close>, written from its words and not from the code:
  the dates of \<open>a\<close> in ascending order, once each, every date with the bar of its
  last occurrence in \<open>a\<close>.
\<close>

definition spec_dedup_sort :: "'b series \<Rightarrow> 'b series" where
  "spec_dedup_sort a = map (\<lambda>d. (d, the (last_bar a d))) (sort (remdups (map fst a)))"

subsection \<open>A cached and a fresh series, and the order quicksort leaves them in\<close>

text \<open>
  \<open>day n\<close> is midnight of the \<open>n\<close>-th day after the epoch. \<open>cached_six\<close> is a
  cached series of six bars, 1970-01-01 to 1970-01-06, and \<open>fresh_eleven\<close> a fetched
  series of eleven bars, 1970-01-01 to 1970-01-11; a bar is a number, 100 and up when
  cached, 200 and up when fresh.
\<close>

definition day :: "int \<Rightarrow> timestamp" where
  "day n = n * day_ns"




section \<open>Backtest engine: \<open>algo/backtest/engine_fast.py\<close>\<close>

subsection \<open>Arithmetic of cells\<close>

text \<open>
  The float64 operations on \<open>val\<close>: a missing operand gives a missing result; a finite
  number over zero gives an infinity, and zero over zero, infinity minus infinity and
  zero times infinity give \<open>NaN\<close>.
\<close>

fun vneg :: "val \<Rightarrow> val" where
  "vneg NaN = NaN"
| "vneg (Fin a) = Fin (- a)"
| "vneg (Infty s) = Infty (\<not> s)"

fun vadd :: "val \<Rightarrow> val \<Rightarrow> val" where
  "vadd (Fin a) (Fin b) = Fin (a + b)"
| "vadd (Fin a) (Infty s) = Infty s"
| "vadd (Infty s) (Fin b) = Infty s"
| "vadd (Infty s) (Infty t) = (if s = t then Infty s else NaN)"
| "vadd NaN y = NaN"
| "vadd x NaN = NaN"

definition vsub :: "val \<Rightarrow> val \<Rightarrow> val" where
  "vsub x y = vadd x (vneg y)"

fun vmul :: "val \<Rightarrow> val \<Rightarrow> val" where
  "vmul (Fin a) (Fin b) = Fin (a * b)"
| "vmul (Fin a) (Infty s) = (if a = 0 then NaN else Infty (s = (0 < a)))"
| "vmul (Infty s) (Fin b) = (if b = 0 then NaN else Infty (s = (0 < b)))"
| "vmul (Infty s) (Infty t) = Infty (s = t)"
| "vmul NaN y = NaN"
| "vmul x NaN = NaN"

fun vdiv :: "val \<Rightarrow> val \<Rightarrow> val" where
  "vdiv (Fin a) (Fin b) =
     (if b = 0 then (if a = 0 then NaN else Infty (0 < a)) else Fin (a / b))"
| "vdiv (Fin a) (Infty s) = Fin 0"
| "vdiv (Infty s) (Fin b) = Infty (s = (0 \<le> b))"
| "vdiv (Infty s) (Infty t) = NaN"
| "vdiv NaN y = NaN"
| "vdiv x NaN = NaN"

subsection \<open>The frame operations the engine calls\<close>

text \<open>
  \<open>prices.loc[ts:]\<close> on a sorted index: the rows from the first label at or after
  \<open>ts\<close>. \<open>ffill\<close> carries the last present value of each column forward; \<open>shift\<close>
  is \<open>shift(1)\<close>: every row moves one position down under the same labels and the first
  row is missing. \<open>frame_op\<close> is an operation of two frames on the same axes, cell by
  cell.
\<close>

definition loc_from :: "timestamp \<Rightarrow> 'b series \<Rightarrow> 'b series" where
  "loc_from start xs = dropWhile (\<lambda>(t, r). t < start) xs"

fun ffill_from :: "(string \<Rightarrow> val) \<Rightarrow> (string \<Rightarrow> val) series \<Rightarrow> (string \<Rightarrow> val) series" where
  "ffill_from prev [] = []"
| "ffill_from prev ((t, r) # xs) =
     (let r1 = (\<lambda>c. if r c = NaN then prev c else r c)
      in (t, r1) # ffill_from r1 xs)"

definition ffill :: "frame \<Rightarrow> frame" where
  "ffill df = df\<lparr>rows := ffill_from (\<lambda>c. NaN) (rows df)\<rparr>"

definition shift :: "frame \<Rightarrow> frame" where
  "shift df =
     df\<lparr>rows := (case rows df of
                   [] \<Rightarrow> []
                 | x # xs \<Rightarrow> zip (map fst (rows df)) ((\<lambda>c. NaN) # butlast (map snd (rows df))))\<rparr>"

definition frame_op :: "(val \<Rightarrow> val \<Rightarrow> val) \<Rightarrow> frame \<Rightarrow> frame \<Rightarrow> frame" where
  "frame_op f a b =
     \<lparr>columns = columns a,
      rows = map2 (\<lambda>(t, r) (u, s). (t, \<lambda>c. f (r c) (s c))) (rows a) (rows b)\<rparr>"

definition frame_sub_scalar :: "frame \<Rightarrow> val \<Rightarrow> frame" where
  "frame_sub_scalar df v = df\<lparr>rows := map (\<lambda>(t, r). (t, \<lambda>c. vsub (r c) v)) (rows df)\<rparr>"

text \<open>
  \<open>pct_change()\<close> is \<open>data / data.shift(1) - 1\<close>. Its default \<open>fill_method\<close>
  depends on the version of pandas: older versions fill forward first (\<open>pad\<close> is
  \<open>True\<close>), newer ones do not.
\<close>

definition pct_change :: "bool \<Rightarrow> frame \<Rightarrow> frame" where
  "pct_change pad df =
     (let data = (if pad then ffill df else df)
      in frame_sub_scalar (frame_op vdiv data (shift data)) (Fin 1))"

text \<open>
  \<open>reindex(index=idx)\<close> and \<open>reindex(columns=cs)\<close> conform a frame to new labels: a label
  the frame has keeps its cells, a label it lacks gets missing cells, and labels outside the
  new ones are gone. \<open>fillna(v)\<close> replaces missing cells by \<open>v\<close>.
\<close>

definition reindex_index :: "timestamp list \<Rightarrow> frame \<Rightarrow> frame" where
  "reindex_index idx df =
     df\<lparr>rows := map (\<lambda>t. (t, case map_of (rows df) t of
                                 None \<Rightarrow> (\<lambda>c. NaN)
                               | Some r \<Rightarrow> r)) idx\<rparr>"

definition reindex_columns :: "string list \<Rightarrow> frame \<Rightarrow> frame" where
  "reindex_columns cs df =
     \<lparr>columns = cs,
      rows = map (\<lambda>(t, r). (t, \<lambda>c. if c \<in> set cs \<and> c \<in> set (columns df) then r c else NaN))
               (rows df)\<rparr>"

definition fillna :: "val \<Rightarrow> frame \<Rightarrow> frame" where
  "fillna v df = df\<lparr>rows := map (\<lambda>(t, r). (t, \<lambda>c. if r c = NaN then v else r c)) (rows df)\<rparr>"

text \<open>
  \<open>sum(axis=1)\<close> adds the cells of each row over the columns and skips missing cells, so
  a row of missing cells sums to 0. \<open>dropna()\<close> on a series drops missing values;
  \<open>cumprod()\<close> is the running product, which passes over a missing value.
\<close>

definition row_sum :: "val list \<Rightarrow> val" where
  "row_sum vs = foldl vadd (Fin 0) (filter (\<lambda>v. v \<noteq> NaN) vs)"

definition sum_axis1 :: "frame \<Rightarrow> val series" where
  "sum_axis1 df = map (\<lambda>(t, r). (t, row_sum (map r (columns df)))) (rows df)"

definition dropna :: "val series \<Rightarrow> val series" where
  "dropna s = filter (\<lambda>(t, v). v \<noteq> NaN) s"

definition add_scalar :: "val \<Rightarrow> val series \<Rightarrow> val series" where
  "add_scalar a s = map (\<lambda>(t, v). (t, vadd a v)) s"

fun cumprod_from :: "val \<Rightarrow> val series \<Rightarrow> val series" where
  "cumprod_from acc [] = []"
| "cumprod_from acc ((t, v) # xs) =
     (if v = NaN then (t, NaN) # cumprod_from acc xs
      else (t, vmul acc v) # cumprod_from (vmul acc v) xs)"

definition cumprod :: "val series \<Rightarrow> val series" where
  "cumprod s = cumprod_from (Fin 1) s"

subsection \<open>\<open>run_backtest_fast_daily\<close>\<close>

text \<open>
  The function in the steps of its body: the prices sorted and clipped to \<open>start_date\<close>
  (already a timestamp here), the weights aligned to the prices, the aligned weights
  lagged by one row, the portfolio return of every date, and the equity curve. An empty
  price table raises \<open>ValueError("prices is empty")\<close>, the \<open>EmptyInput\<close> of the
  specification.
\<close>

definition clip_history :: "tie_order \<Rightarrow> frame \<Rightarrow> timestamp option \<Rightarrow> frame" where
  "clip_history tie prices start_date =
     (let prices1 = prices\<lparr>rows := sort_index tie (rows prices)\<rparr>
      in case start_date of
           None \<Rightarrow> prices1
         | Some ts \<Rightarrow> prices1\<lparr>rows := loc_from ts (rows prices1)\<rparr>)"

definition aligned_weights :: "frame \<Rightarrow> frame \<Rightarrow> frame" where
  "aligned_weights prices weights_by_day =
     (let w = fillna (Fin 0) (reindex_index (map fst (rows prices)) weights_by_day)
      in fillna (Fin 0) (reindex_columns (columns prices) w))"

definition lagged_weights :: "frame \<Rightarrow> frame \<Rightarrow> frame" where
  "lagged_weights prices weights_by_day =
     fillna (Fin 0) (shift (aligned_weights prices weights_by_day))"

definition portfolio_returns :: "bool \<Rightarrow> frame \<Rightarrow> frame \<Rightarrow> val series" where
  "portfolio_returns pad prices weights_by_day =
     (let rets = pct_change pad prices;
          w = lagged_weights prices weights_by_day
      in sum_axis1 (frame_op vmul rets w))"

definition run_backtest_fast_daily ::
  "tie_order \<Rightarrow> bool \<Rightarrow> frame \<Rightarrow> frame \<Rightarrow> timestamp option \<Rightarrow> error + val series" where
  "run_backtest_fast_daily tie pad prices weights_by_day start_date =
     (if df_empty prices then Inl EmptyInput
      else
        let prices1 = clip_history tie prices start_date;
            port_rets = dropna (portfolio_returns pad prices1 weights_by_day);
            equity = cumprod (add_scalar (Fin 1) port_rets)
        in Inr equity)"

subsection \<open>Scenario and notions for the statements\<close>

text \<open>
  The scenario of the specification: one instrument priced 100, 110, 121 on three
  consecutive dates, held with weight 1 on the first two dates and 0 on the third.
\<close>

definition scenario_prices :: frame where
  "scenario_prices =
     \<lparr>columns = [''A''],
      rows = [(day 0, \<lambda>c. Fin 100), (day 1, \<lambda>c. Fin 110), (day 2, \<lambda>c. Fin 121)]\<rparr>"

definition scenario_weights :: frame where
  "scenario_weights =
     \<lparr>columns = [''A''],
      rows = [(day 0, \<lambda>c. Fin 1), (day 1, \<lambda>c. Fin 1), (day 2, \<lambda>c. Fin 0)]\<rparr>"

text \<open>
  \<open>weight_or_zero\<close> is the weight a matrix records for an instrument at a date, with 0
  for an absent date, an absent instrument or a missing cell. \<open>zero_row t\<close> is the copy
  of a matrix whose row at date \<open>t\<close> is zeroed; \<open>only_columns cs\<close> drops the columns
  outside \<open>cs\<close>; \<open>aligned_row\<close> is the row the alignment gives a date.
\<close>

definition weight_or_zero :: "frame \<Rightarrow> timestamp \<Rightarrow> string \<Rightarrow> val" where
  "weight_or_zero weights_by_day t c =
     (case map_of (rows weights_by_day) t of
        None \<Rightarrow> Fin 0
      | Some r \<Rightarrow> if c \<in> set (columns weights_by_day) \<and> r c \<noteq> NaN then r c else Fin 0)"

definition zero_row :: "timestamp \<Rightarrow> frame \<Rightarrow> frame" where
  "zero_row t weights_by_day =
     weights_by_day\<lparr>rows := map (\<lambda>(u, r). if u = t then (u, \<lambda>c. Fin 0) else (u, r))
                                 (rows weights_by_day)\<rparr>"

definition only_columns :: "string list \<Rightarrow> frame \<Rightarrow> frame" where
  "only_columns cs df = df\<lparr>columns := filter (\<lambda>c. c \<in> set cs) (columns df)\<rparr>"

definition aligned_row :: "frame \<Rightarrow> frame \<Rightarrow> timestamp \<Rightarrow> string \<Rightarrow> val" where
  "aligned_row prices weights_by_day t c =
     (if c \<in> set (columns prices) then weight_or_zero weights_by_day t c else Fin 0)"

section \<open>Cache file names are not injective\<close>

text \<open>
  C9. The sanitization of cache file names is not injective: the distinct instrument keys
  \<open>a/b\<close> and \<open>a_b\<close> get the same file name, hence the same cache path under every provider
  and data directory; reading either key reads the same file, writing either key writes
  the same file, and after a successful write for \<open>a/b\<close> a read for \<open>a_b\<close> returns the
  series written for \<open>a/b\<close>, whatever was cached for \<open>a_b\<close> before.
\<close>

theorem cache_filename_not_injective:
  "''a/b'' \<noteq> ''a_b''
   \<and> asset_key_to_filename ''a/b'' = asset_key_to_filename ''a_b''
   \<and> raw_cache_path dir p ''a/b'' = raw_cache_path dir p ''a_b''
   \<and> read_cache tie dir p ''a/b'' st = read_cache tie dir p ''a_b'' st
   \<and> write_cache tie w dir p ''a/b'' df st = write_cache tie w dir p ''a_b'' df st
   \<and> fst (read_cache tie dir p ''a_b''
            (snd (write_cache tie to_parquet_ok dir p ''a/b'' df st)))
       = Some (drop_duplicated_last
                (sort_index tie (drop_duplicated_last (sort_index tie df))))"
proof -
  have f: "asset_key_to_filename ''a/b'' = asset_key_to_filename ''a_b''"
    by (simp add: asset_key_to_filename_def replace_char_def)
  have p: "raw_cache_path dir p ''a/b'' = raw_cache_path dir p ''a_b''"
    by (simp add: raw_cache_path_def f)
  show ?thesis
    by (simp add: f p read_cache_def write_cache_def to_parquet_ok_def mkdir_parents_def
        Let_def)
qed

section \<open>Merge engine: what holds for every sort, and what the unstable sort breaks\<close>

subsection \<open>Deduplication and lookup\<close>

lemma dates_drop_duplicated_last: "fst ` set (drop_duplicated_last xs) = fst ` set xs"
  by (induction xs) auto

lemma distinct_drop_duplicated_last: "distinct (map fst (drop_duplicated_last xs))"
  by (induction xs) (auto simp: dates_drop_duplicated_last)

lemma sorted_drop_duplicated_last:
  "sorted (map fst xs) \<Longrightarrow> sorted (map fst (drop_duplicated_last xs))"
  by (induction xs) (auto simp: dates_drop_duplicated_last)

lemma map_of_snoc_present:
  assumes "fst x \<in> fst ` set xs"
  shows "map_of (xs @ [x]) = map_of xs"
proof
  fix k
  from assms obtain v where "map_of xs (fst x) = Some v"
    by (metis domD dom_map_of_conv_image_fst)
  then show "map_of (xs @ [x]) k = map_of xs k"
    by (cases "map_of xs k") (auto simp: map_add_def)
qed

lemma map_of_snoc_absent:
  assumes "fst x \<notin> fst ` set xs"
  shows "map_of (xs @ [x]) = (map_of xs)(fst x \<mapsto> snd x)"
proof
  fix k
  from assms have "map_of xs (fst x) = None"
    by (simp add: map_of_eq_None_iff)
  then show "map_of (xs @ [x]) k = ((map_of xs)(fst x \<mapsto> snd x)) k"
    by (cases "map_of xs k") (auto simp: map_add_def)
qed

lemma map_of_drop_duplicated_last: "map_of (drop_duplicated_last xs) = map_of (rev xs)"
proof (induction xs)
  case Nil show ?case by simp
next
  case (Cons x xs)
  show ?case
  proof (cases "fst x \<in> fst ` set xs")
    case True
    then have "map_of (rev xs @ [x]) = map_of (rev xs)"
      by (intro map_of_snoc_present) simp
    with Cons True show ?thesis by simp
  next
    case False
    then have "map_of (rev xs @ [x]) = (map_of (rev xs))(fst x \<mapsto> snd x)"
      by (intro map_of_snoc_absent) simp
    with Cons False show ?thesis by (cases x) simp
  qed
qed

lemma map_of_filter_key: "map_of xs d = map_of (filter (\<lambda>x. fst x = d) xs) d"
  by (induction xs) auto

lemma rebuild_from_keys:
  "distinct (map fst xs) \<Longrightarrow> map (\<lambda>k. (k, the (map_of xs k))) (map fst xs) = xs"
proof (induction xs)
  case Nil show ?case by simp
next
  case (Cons x xs)
  have notin: "fst x \<notin> set (map fst xs)" and dist: "distinct (map fst xs)"
    using Cons.prems by simp_all
  have "map (\<lambda>k. (k, the (map_of (x # xs) k))) (map fst xs)
           = map (\<lambda>k. (k, the (map_of xs k))) (map fst xs)"
  proof (rule map_cong[OF refl])
    fix k assume "k \<in> set (map fst xs)"
    with notin have "k \<noteq> fst x" by blast
    then show "(k, the (map_of (x # xs) k)) = (k, the (map_of xs k))"
      by (cases x) simp
  qed
  also have "\<dots> = xs" using Cons.IH dist by blast
  finally show ?case by (cases x) simp
qed

lemma strict_sortedD:
  "sorted_wrt (<) (ks :: int list) \<Longrightarrow> sorted ks \<and> distinct ks"
  using strict_sorted_iff by blast

lemma series_eqI:
  fixes xs ys :: "'b series"
  assumes "sorted_wrt (<) (map fst xs)" "sorted_wrt (<) (map fst ys)" "map_of xs = map_of ys"
  shows "xs = ys"
proof -
  have sx: "sorted (map fst xs) \<and> distinct (map fst xs)"
    using assms(1) by (rule strict_sortedD)
  have sy: "sorted (map fst ys) \<and> distinct (map fst ys)"
    using assms(2) by (rule strict_sortedD)
  have "dom (map_of xs) = dom (map_of ys)" by (simp only: assms(3))
  then have "set (map fst xs) = set (map fst ys)"
    by (simp only: dom_map_of_conv_image_fst set_map)
  then have keys: "map fst xs = map fst ys"
    using sx sy sorted_distinct_set_unique by blast
  have "xs = map (\<lambda>k. (k, the (map_of xs k))) (map fst xs)"
    using sx by (simp only: rebuild_from_keys)
  also have "\<dots> = map (\<lambda>k. (k, the (map_of ys k))) (map fst ys)"
    by (simp only: keys assms(3))
  also have "\<dots> = ys" using sy by (simp only: rebuild_from_keys)
  finally show ?thesis .
qed

lemma drop_duplicated_last_distinct:
  fixes xs :: "'b series"
  shows "distinct (map fst xs) \<Longrightarrow> drop_duplicated_last xs = xs"
  by (induction xs) auto

lemma map_of_rev_distinct:
  fixes xs :: "'b series"
  assumes "distinct (map fst xs)"
  shows "map_of (rev xs) = map_of xs"
proof -
  have "map_of (rev xs) = map_of (drop_duplicated_last xs)"
    by (simp only: map_of_drop_duplicated_last)
  then show ?thesis using assms by (simp only: drop_duplicated_last_distinct)
qed

lemma map_add_same: "m ++ m = m"
  by (rule ext) (simp add: map_add_def split: option.split)

lemma map_add_twice: "(m ++ n) ++ n = m ++ n"
  by (rule ext) (simp add: map_add_def split: option.split)

lemma last_bar_dom: "dom (last_bar a) = dates a"
  by (simp add: last_bar_def dates_def dom_map_of_conv_image_fst)

lemma last_bar_unique:
  "distinct (map fst a) \<Longrightarrow> (d, b) \<in> set a \<Longrightarrow> last_bar a d = Some b"
  by (simp add: last_bar_def map_of_rev_distinct)

subsection \<open>The sort, whatever order it leaves equal labels in\<close>

lemma mset_sort_index: "mset (sort_index tie df) = mset df"
proof -
  have "map snd (zip [0..<length df] df) = df" by simp
  then have "mset (map snd (sort_key (\<lambda>(i, x). tie (map fst df) i) (zip [0..<length df] df)))
      = mset df"
    by (metis mset_map mset_sort)
  then show ?thesis by (simp add: sort_index_def)
qed

lemma set_sort_index: "set (sort_index tie df) = set df"
  using mset_sort_index[of tie df] by (rule mset_eq_setD)

lemma sorted_sort_index: "sorted (map fst (sort_index tie df))"
  by (simp add: sort_index_def)

lemma dates_sort_index: "fst ` set (sort_index tie df) = fst ` set df"
  by (simp only: set_sort_index)

lemma distinct_dates_sort_index:
  "distinct (map fst (sort_index tie df)) \<longleftrightarrow> distinct (map fst df)"
proof -
  have "mset (map fst (sort_index tie df)) = mset (map fst df)"
    by (simp add: mset_sort_index)
  then show ?thesis by (rule mset_eq_imp_distinct_iff)
qed

lemma sort_index_strictly_sorted:
  assumes "sorted_wrt (<) (map fst df)"
  shows "sort_index tie df = df"
proof (rule series_eqI)
  have d: "distinct (map fst df)" using assms by (auto dest: strict_sortedD)
  then have d': "distinct (map fst (sort_index tie df))"
    by (simp only: distinct_dates_sort_index)
  then show "sorted_wrt (<) (map fst (sort_index tie df))"
    using sorted_sort_index[of tie df] by (simp only: strict_sorted_iff simp_thms)
  show "sorted_wrt (<) (map fst df)" by (rule assms)
  show "map_of (sort_index tie df) = map_of df"
    using d d' set_sort_index[of tie df] by (simp only: map_of_inject_set)
qed

lemma sort_index_Nil: "sort_index tie [] = []"
  by (simp add: sort_index_def)

lemma sort_index_single: "sort_index tie [x] = [x]"
  by (simp add: sort_index_def)

lemma strict_normal: "sorted_wrt (<) (map fst (drop_duplicated_last (sort_index tie xs)))"
  by (simp only: strict_sorted_iff sorted_drop_duplicated_last sorted_sort_index
      distinct_drop_duplicated_last simp_thms)

lemma dates_normal: "fst ` set (drop_duplicated_last (sort_index tie xs)) = fst ` set xs"
  by (simp add: dates_drop_duplicated_last dates_sort_index)

lemma strict_merge_prices: "sorted_wrt (<) (map fst (merge_prices tie e f))"
  by (cases e) (simp_all add: merge_prices_def Let_def strict_normal)

lemma dates_merge_prices:
  "dates (merge_prices tie e f) = (case e of None \<Rightarrow> {} | Some xs \<Rightarrow> dates xs) \<union> dates f"
  by (cases e) (simp_all add: merge_prices_def Let_def dates_def dates_normal image_Un)

subsection \<open>The merge under a stable sort\<close>

lemma sort_index_stable: "sort_index stable_ties df = sort_key fst df"
proof -
  let ?zs = "zip [0..<length df] df"
  have "map (\<lambda>(i, x). stable_ties (map fst df) i) ?zs = map fst ?zs"
    by (simp add: stable_ties_def case_prod_unfold)
  then have "sorted (map (\<lambda>(i, x). stable_ties (map fst df) i) ?zs)"
    by simp
  then have "sort_key (\<lambda>(i, x). stable_ties (map fst df) i) ?zs = ?zs"
    by (rule sort_key_id_if_sorted)
  then show ?thesis by (simp add: sort_index_def)
qed

lemma map_of_rev_sort_index: "map_of (rev (sort_index stable_ties xs)) = map_of (rev xs)"
proof
  fix d
  have "map_of (rev (sort_index stable_ties xs)) d = map_of (filter (\<lambda>x. fst x = d) (rev (sort_index stable_ties xs))) d"
    by (rule map_of_filter_key)
  also have "\<dots> = map_of (rev (filter (\<lambda>x. fst x = d) xs)) d"
  proof -
    have "filter (\<lambda>x. fst x = d) (rev (sort_key fst xs)) = rev (filter (\<lambda>x. fst x = d) (sort_key fst xs))"
      by (rule rev_filter[symmetric])
    then show ?thesis by (simp only: sort_index_stable sort_key_stable)
  qed
  also have "\<dots> = map_of (rev xs) d"
    by (simp add: map_of_filter_key[of "rev xs" d] rev_filter)
  finally show "map_of (rev (sort_index stable_ties xs)) d = map_of (rev xs) d" .
qed

lemma map_of_normal: "map_of (drop_duplicated_last (sort_index stable_ties xs)) = map_of (rev xs)"
  by (simp add: map_of_drop_duplicated_last map_of_rev_sort_index)

lemma map_of_merge_prices_None: "map_of (merge_prices stable_ties None f) = last_bar f"
  by (simp add: merge_prices_def Let_def map_of_normal last_bar_def)

lemma map_of_merge_prices_Some:
  "map_of (merge_prices stable_ties (Some e) f) = last_bar e ++ last_bar f"
proof -
  let ?n = "drop_duplicated_last (sort_index stable_ties f)"
  have "distinct (map fst ?n)" by (rule distinct_drop_duplicated_last)
  then have "map_of (rev ?n) = map_of (rev f)"
    by (simp only: map_of_rev_distinct map_of_normal)
  then show ?thesis
    by (simp add: merge_prices_def Let_def map_of_normal last_bar_def)
qed

lemma merge_prices_fresh_wins_if_stable:
  "sorted_wrt (<) (map fst (merge_prices stable_ties e f))
   \<and> dates (merge_prices stable_ties e f) = (case e of None \<Rightarrow> {} | Some xs \<Rightarrow> dates xs) \<union> dates f
   \<and> (\<forall>d \<in> dates f. map_of (merge_prices stable_ties e f) d = last_bar f d)
   \<and> (\<forall>xs. e = Some xs \<longrightarrow>
         (\<forall>d \<in> dates xs - dates f. map_of (merge_prices stable_ties e f) d = last_bar xs d))"
proof (intro conjI)
  show "sorted_wrt (<) (map fst (merge_prices stable_ties e f))" by (rule strict_merge_prices)
  show "dates (merge_prices stable_ties e f) = (case e of None \<Rightarrow> {} | Some xs \<Rightarrow> dates xs) \<union> dates f"
    by (rule dates_merge_prices)
  show "\<forall>d \<in> dates f. map_of (merge_prices stable_ties e f) d = last_bar f d"
  proof
    fix d assume "d \<in> dates f"
    then have "d \<in> dom (last_bar f)" by (simp only: last_bar_dom)
    then show "map_of (merge_prices stable_ties e f) d = last_bar f d"
      by (cases e) (auto simp: map_of_merge_prices_None map_of_merge_prices_Some map_add_def)
  qed
  show "\<forall>xs. e = Some xs \<longrightarrow>
         (\<forall>d \<in> dates xs - dates f. map_of (merge_prices stable_ties e f) d = last_bar xs d)"
  proof (intro allI impI ballI)
    fix xs d assume e: "e = Some xs" and d: "d \<in> dates xs - dates f"
    then have "d \<notin> dom (last_bar f)" by (simp add: last_bar_dom)
    then have "last_bar f d = None" by blast
    then show "map_of (merge_prices stable_ties e f) d = last_bar xs d"
      by (simp add: e map_of_merge_prices_Some map_add_def)
  qed
qed

lemma merge_prices_laws_if_stable:
  "merge_prices stable_ties None a = spec_dedup_sort a
   \<and> merge_prices stable_ties (Some (merge_prices stable_ties e f)) f = merge_prices stable_ties e f"
proof
  have keys: "map fst (merge_prices stable_ties None a) = sort (remdups (map fst a))"
  proof (rule sorted_distinct_set_unique)
    show "sorted (map fst (merge_prices stable_ties None a))" "distinct (map fst (merge_prices stable_ties None a))"
      using strict_merge_prices[of stable_ties None a] by (auto dest: strict_sortedD)
    show "sorted (sort (remdups (map fst a)))" "distinct (sort (remdups (map fst a)))" by simp_all
    show "set (map fst (merge_prices stable_ties None a)) = set (sort (remdups (map fst a)))"
      using dates_merge_prices[of stable_ties None a] by (simp add: dates_def)
  qed
  have "distinct (map fst (merge_prices stable_ties None a))"
    using strict_merge_prices[of stable_ties None a] by (auto dest: strict_sortedD)
  then have "merge_prices stable_ties None a
      = map (\<lambda>k. (k, the (map_of (merge_prices stable_ties None a) k))) (map fst (merge_prices stable_ties None a))"
    by (simp only: rebuild_from_keys)
  then show "merge_prices stable_ties None a = spec_dedup_sort a"
    by (simp only: keys map_of_merge_prices_None spec_dedup_sort_def)
next
  show "merge_prices stable_ties (Some (merge_prices stable_ties e f)) f = merge_prices stable_ties e f"
  proof (rule series_eqI)
    show "sorted_wrt (<) (map fst (merge_prices stable_ties (Some (merge_prices stable_ties e f)) f))"
      by (rule strict_merge_prices)
    show "sorted_wrt (<) (map fst (merge_prices stable_ties e f))" by (rule strict_merge_prices)
    have "distinct (map fst (merge_prices stable_ties e f))"
      using strict_merge_prices[of stable_ties e f] by (auto dest: strict_sortedD)
    then have "last_bar (merge_prices stable_ties e f) = map_of (merge_prices stable_ties e f)"
      by (simp add: last_bar_def map_of_rev_distinct)
    then show "map_of (merge_prices stable_ties (Some (merge_prices stable_ties e f)) f) = map_of (merge_prices stable_ties e f)"
      by (cases e)
        (simp_all add: map_of_merge_prices_Some map_of_merge_prices_None map_add_same
          map_add_twice)
  qed
qed

subsection \<open>The merge under the default sort\<close>

lemma day_less: "day m < day n \<longleftrightarrow> m < n"
  and day_le: "day m \<le> day n \<longleftrightarrow> m \<le> n"
  and day_eq: "day m = day n \<longleftrightarrow> m = n"
  by (simp_all add: day_def day_ns_def)




section \<open>Fallback controller: all providers fail\<close>









section \<open>Provider clients and canonicalization\<close>

lemma day_ns_pos: "0 < day_ns" by (simp add: day_ns_def)

lemma date_only_normalize: "date_only (normalize_date t)"
  by (simp add: date_only_def normalize_date_def)

lemma normalize_mono: "t \<le> u \<Longrightarrow> normalize_date t \<le> normalize_date u"
proof -
  assume "t \<le> u"
  then have "t div day_ns \<le> u div day_ns" using day_ns_pos by (simp add: zdiv_mono1)
  then have "day_ns * (t div day_ns) \<le> day_ns * (u div day_ns)"
    using day_ns_pos by simp
  moreover have "normalize_date t = day_ns * (t div day_ns)" for t
    by (simp add: normalize_date_def minus_mod_eq_mult_div)
  ultimately show ?thesis by simp
qed

lemma sorted_map_normalize:
  "sorted (map fst xs) \<Longrightarrow> sorted (map fst (map (\<lambda>(t, r). (normalize_date t, r)) xs))"
  by (induction xs) (auto simp: normalize_mono)

lemma columns_ohlcv_frame: "ohlcv_frame tn df = Inr out \<Longrightarrow> columns out = ohlcv_cols"
  by (auto simp: ohlcv_frame_def ohlcv_cols_def split: if_splits)

lemma columns_stooq_frame: "stooq_frame tie td tn df = Inr out \<Longrightarrow> columns out = ohlcv_cols"
  by (auto simp: stooq_frame_def Let_def dropna_subset_def ohlcv_frame_def ohlcv_cols_def
      split: if_splits sum.splits)

lemma columns_yahoo_frame:
  "yahoo_frame tie tn ysym dl = Inr out \<Longrightarrow>
     columns out = ohlcv_cols \<or> columns out = ohlcv_cols @ [''adj_close'']"
  by (auto simp: yahoo_frame_def Let_def dropna_subset_def ohlcv_frame_def ohlcv_cols_def
      with_adj_close_def split: if_splits sum.splits)

lemma canonicalize_ohlcv_missing:
  "\<not> has_columns ohlcv_cols df \<Longrightarrow>
     canonicalize_ohlcv df
       = Inl (SchemaError (filter (\<lambda>c. c \<notin> set (columns df)) ohlcv_cols) (columns df))
     \<and> filter (\<lambda>c. c \<notin> set (columns df)) ohlcv_cols \<noteq> []"
  unfolding canonicalize_ohlcv_def has_columns_def ohlcv_cols_def Let_def
  by (auto simp: filter_empty_conv)

lemma canonicalize_ohlcv_present:
  "has_columns ohlcv_cols df \<Longrightarrow>
     canonicalize_ohlcv df
       = Inr \<lparr>columns = ohlcv_cols @ [''adj_close''],
              rows = (if ''adj_close'' \<in> set (columns df) then rows df
                      else map (\<lambda>(t, r). (t, r(''adj_close'' := r ''close''))) (rows df))\<rparr>"
  unfolding canonicalize_ohlcv_def has_columns_def ohlcv_cols_def Let_def
  by (auto simp: getitem_columns_def has_columns_def setitem_column_def)

lemma rows_ohlcv_frame:
  "ohlcv_frame tn df = Inr out \<Longrightarrow>
     rows out = map (\<lambda>(t, r). (t, provider_columns tn r)) (rows df)"
  by (auto simp: ohlcv_frame_def split: if_splits)

lemma sorted_filter_fst:
  fixes xs :: "'b series"
  shows "sorted (map fst xs) \<Longrightarrow> sorted (map fst (filter P xs))"
  by (induction xs) auto

lemma stooq_frame_normalized:
  assumes "stooq_frame tie td tn df = Inr out"
  shows "sorted (map fst (rows out))"
    and "\<forall>(t, r) \<in> set (rows out). date_only t \<and> r ''close'' \<noteq> NaN
           \<and> (\<exists>i r0. (i, r0) \<in> set (rows df) \<and> r = provider_columns tn r0)"
proof -
  let ?s = "sort_index tie (map (\<lambda>(i, r). (the (td (r ''Date'')), r)) (rows df))"
  let ?n = "map (\<lambda>(t, r). (normalize_date t, r)) ?s"
  let ?df2 = "\<lparr>columns = removeAll ''Date'' (columns df), rows = ?n\<rparr>"
  from assms obtain o1 where o1: "ohlcv_frame tn ?df2 = Inr o1"
    and out: "out = dropna_subset ''close'' o1"
    by (auto simp: stooq_frame_def Let_def split: if_splits sum.splits)
  have r1: "rows o1 = map (\<lambda>(t, r). (t, provider_columns tn r)) ?n"
    using rows_ohlcv_frame[OF o1] by simp
  have "sorted (map fst ?s)" by (rule sorted_sort_index)
  then have "sorted (map fst ?n)" by (rule sorted_map_normalize)
  moreover have "map fst (rows o1) = map fst ?n"
    by (simp add: r1 case_prod_unfold comp_def)
  ultimately have "sorted (map fst (rows o1))" by simp
  then show "sorted (map fst (rows out))"
    by (simp add: out dropna_subset_def sorted_filter_fst)
  show "\<forall>(t, r) \<in> set (rows out). date_only t \<and> r ''close'' \<noteq> NaN
           \<and> (\<exists>i r0. (i, r0) \<in> set (rows df) \<and> r = provider_columns tn r0)"
    by (auto simp: out dropna_subset_def r1 set_sort_index date_only_normalize)
qed

lemma yahoo_frame_sorted_close:
  assumes "yahoo_frame tie tn ysym dl = Inr out"
  shows "sorted (map fst (rows out))"
    and "\<forall>(t, r) \<in> set (rows out). r ''close'' \<noteq> NaN"
  using assms
  by (auto simp: yahoo_frame_def Let_def dropna_subset_def sorted_sort_index sorted_filter_fst
      split: if_splits sum.splits)

text \<open>
  C7. Canonicalization of a fetched table fails with \<open>SchemaError\<close>, listing exactly
  the base fields that are absent, whenever one of \<open>open, high, low, close, volume\<close> is
  absent; otherwise it returns the table with exactly these five fields and
  \<open>adj_close\<close>, the rows unchanged when the source had \<open>adj_close\<close> and with
  \<open>adj_close\<close> a copy of \<open>close\<close> when it had not. Hence the canonical form of
  whatever either fetcher returns has all six fields.
\<close>

theorem canonicalize_ohlcv_schema:
  "(\<not> has_columns ohlcv_cols df \<longrightarrow>
      canonicalize_ohlcv df
        = Inl (SchemaError (filter (\<lambda>c. c \<notin> set (columns df)) ohlcv_cols) (columns df))
      \<and> filter (\<lambda>c. c \<notin> set (columns df)) ohlcv_cols \<noteq> [])
   \<and> (has_columns ohlcv_cols df \<longrightarrow>
      canonicalize_ohlcv df
        = Inr \<lparr>columns = ohlcv_cols @ [''adj_close''],
               rows = (if ''adj_close'' \<in> set (columns df) then rows df
                       else map (\<lambda>(t, r). (t, r(''adj_close'' := r ''close''))) (rows df))\<rparr>)
   \<and> (\<forall>out. stooq_frame tie td tn csv = Inr out \<longrightarrow>
         (\<exists>g. canonicalize_ohlcv out = Inr g \<and> columns g = ohlcv_cols @ [''adj_close'']))
   \<and> (\<forall>out. yahoo_frame tie tn' ysym dl = Inr out \<longrightarrow>
         (\<exists>g. canonicalize_ohlcv out = Inr g \<and> columns g = ohlcv_cols @ [''adj_close'']))"
proof (intro conjI impI allI)
  assume "\<not> has_columns ohlcv_cols df"
  then show "canonicalize_ohlcv df
        = Inl (SchemaError (filter (\<lambda>c. c \<notin> set (columns df)) ohlcv_cols) (columns df))"
    and "filter (\<lambda>c. c \<notin> set (columns df)) ohlcv_cols \<noteq> []"
    using canonicalize_ohlcv_missing by blast+
next
  assume "has_columns ohlcv_cols df"
  then show "canonicalize_ohlcv df
        = Inr \<lparr>columns = ohlcv_cols @ [''adj_close''],
               rows = (if ''adj_close'' \<in> set (columns df) then rows df
                       else map (\<lambda>(t, r). (t, r(''adj_close'' := r ''close''))) (rows df))\<rparr>"
    by (rule canonicalize_ohlcv_present)
next
  fix out assume "stooq_frame tie td tn csv = Inr out"
  then have "has_columns ohlcv_cols out"
    using columns_stooq_frame[of tie td tn csv out] by (simp add: has_columns_def ohlcv_cols_def)
  then show "\<exists>g. canonicalize_ohlcv out = Inr g \<and> columns g = ohlcv_cols @ [''adj_close'']"
    by (simp add: canonicalize_ohlcv_present)
next
  fix out assume "yahoo_frame tie tn' ysym dl = Inr out"
  then have "has_columns ohlcv_cols out"
    using columns_yahoo_frame[of tie tn' ysym dl out] by (auto simp: has_columns_def ohlcv_cols_def)
  then show "\<exists>g. canonicalize_ohlcv out = Inr g \<and> columns g = ohlcv_cols @ [''adj_close'']"
    by (simp add: canonicalize_ohlcv_present)
qed

lemma provider_columns_close: "provider_columns tn r ''close'' = tn (r ''Close'')"
  by (simp add: provider_columns_def)

lemma yahoo_intraday:
  "yahoo_frame tie id ''SPY'' intraday_response
     = Inr \<lparr>columns = ohlcv_cols,
            rows = [(19723 * day_ns + 3600000000000, provider_columns id (\<lambda>c. Fin 100))]\<rparr>"
  by (simp add: yahoo_frame_def intraday_response_def df_empty_def ohlcv_frame_def has_columns_def
      Let_def sort_index_single dropna_subset_def provider_columns_def ohlcv_cols_def)

theorem canonicalize_ohlcv_schema_witness:
  "canonicalize_ohlcv \<lparr>columns = [''open'', ''close''], rows = [(0, \<lambda>c. Fin 1)]\<rparr>
     = Inl (SchemaError [''high'', ''low'', ''volume''] [''open'', ''close''])
   \<and> canonicalize_ohlcv bar_frame
     = Inr \<lparr>columns = [''open'', ''high'', ''low'', ''close'', ''volume'', ''adj_close''],
            rows = [(0, (\<lambda>c. Fin 1)(''adj_close'' := Fin 1))]\<rparr>
   \<and> (\<exists>g. canonicalize_ohlcv
            \<lparr>columns = ohlcv_cols,
             rows = [(19723 * day_ns + 3600000000000, provider_columns id (\<lambda>c. Fin 100))]\<rparr>
          = Inr g
        \<and> columns g = [''open'', ''high'', ''low'', ''close'', ''volume'', ''adj_close''])"
proof -
  have a: "\<not> has_columns ohlcv_cols \<lparr>columns = [''open'', ''close''], rows = [(0, \<lambda>c. Fin (1::real))]\<rparr>"
    by (simp add: has_columns_def ohlcv_cols_def)
  have b: "has_columns ohlcv_cols bar_frame"
    by (simp add: has_columns_def ohlcv_cols_def bar_frame_def)
  note t1 = canonicalize_ohlcv_schema
      [of "\<lparr>columns = [''open'', ''close''], rows = [(0, \<lambda>c. Fin 1)]\<rparr>" stable_ties
          "\<lambda>v. None" id "\<lparr>columns = [], rows = []\<rparr>" id "''SPY''" intraday_response]
  note t2 = canonicalize_ohlcv_schema
      [of bar_frame stable_ties "\<lambda>v. None" id "\<lparr>columns = [], rows = []\<rparr>" id "''SPY''" intraday_response]
  from t1 a have c1: "canonicalize_ohlcv \<lparr>columns = [''open'', ''close''], rows = [(0, \<lambda>c. Fin 1)]\<rparr>
     = Inl (SchemaError [''high'', ''low'', ''volume''] [''open'', ''close''])"
    by (simp add: ohlcv_cols_def)
  from t2 b have c2: "canonicalize_ohlcv bar_frame
     = Inr \<lparr>columns = [''open'', ''high'', ''low'', ''close'', ''volume'', ''adj_close''],
            rows = [(0, (\<lambda>c. Fin 1)(''adj_close'' := Fin 1))]\<rparr>"
    by (simp add: ohlcv_cols_def bar_frame_def)
  from t2 yahoo_intraday have c3: "\<exists>g. canonicalize_ohlcv
            \<lparr>columns = ohlcv_cols,
             rows = [(19723 * day_ns + 3600000000000, provider_columns id (\<lambda>c. Fin 100))]\<rparr>
          = Inr g
        \<and> columns g = [''open'', ''high'', ''low'', ''close'', ''volume'', ''adj_close'']"
    by (simp add: ohlcv_cols_def)
  from c1 c2 c3 show ?thesis by blast
qed

text \<open>
  C8 fails for the yahoo fetcher: it sorts, coerces and drops bars without a close, as
  \<open>yahoo_frame_sorted_close\<close> shows, but it never normalizes the index, which the stooq
  fetcher does (\<open>stooq_frame_normalized\<close>). On a download whose only bar is stamped
  01:00 the returned series keeps that timestamp, which is not a date-only key.
\<close>

theorem fetch_yahoo_keeps_time_of_day:
  "yahoo_frame tie id ''SPY'' intraday_response
     = Inr \<lparr>columns = [''open'', ''high'', ''low'', ''close'', ''volume''],
            rows = [(19723 * day_ns + 3600000000000, provider_columns id (\<lambda>c. Fin 100))]\<rparr>
   \<and> \<not> date_only (19723 * day_ns + 3600000000000)"
  by (simp add: yahoo_frame_def intraday_response_def df_empty_def ohlcv_frame_def has_columns_def
      Let_def sort_index_single dropna_subset_def date_only_def day_ns_def
      provider_columns_close)

section \<open>Backtest engine: alignment, lag and lookahead\<close>

lemma map_fst_ffill_from: "map fst (ffill_from prev xs) = map fst xs"
  by (induction prev xs rule: ffill_from.induct) (simp_all add: Let_def)

lemma map_fst_shift: "map fst (rows (shift df)) = map fst (rows df)"
  by (cases "rows df") (simp_all add: shift_def)

lemma map_fst_frame_op:
  assumes "length (rows a) = length (rows b)"
  shows "map fst (rows (frame_op f a b)) = map fst (rows a)"
proof -
  have inner: "map fst (map2 (\<lambda>(t, r) (u, s). (t, \<lambda>c. f (r c) (s c))) xs ys) = map fst xs"
    if "length xs = length ys" for xs ys :: "(string \<Rightarrow> val) series"
    using that by (induction xs ys rule: list_induct2) auto
  have "rows (frame_op f a b)
      = map2 (\<lambda>(t, r) (u, s). (t, \<lambda>c. f (r c) (s c))) (rows a) (rows b)"
    by (simp add: frame_op_def)
  then show ?thesis by (simp only: inner[OF assms])
qed

lemma length_rows_shift: "length (rows (shift df)) = length (rows df)"
  using map_fst_shift[of df] by (metis length_map)

lemma map_fst_pct_change: "map fst (rows (pct_change pad df)) = map fst (rows df)"
proof -
  let ?data = "if pad then ffill df else df"
  have d: "map fst (rows ?data) = map fst (rows df)"
    by (simp add: ffill_def map_fst_ffill_from)
  have "map fst (rows (frame_op vdiv ?data (shift ?data))) = map fst (rows ?data)"
    by (rule map_fst_frame_op) (simp only: length_rows_shift)
  then have "map fst (rows (frame_op vdiv ?data (shift ?data))) = map fst (rows df)"
    using d by simp
  moreover have "map fst (rows (frame_sub_scalar x v)) = map fst (rows x)" for x v
    by (simp add: frame_sub_scalar_def case_prod_unfold comp_def)
  ultimately show ?thesis by (simp only: pct_change_def Let_def)
qed

lemma columns_pct_change: "columns (pct_change pad df) = columns df"
  by (simp add: pct_change_def Let_def frame_sub_scalar_def frame_op_def ffill_def)

lemma rows_aligned_weights:
  "rows (aligned_weights prices w)
     = map (\<lambda>t. (t, aligned_row prices w t)) (map fst (rows prices))"
  by (auto simp: aligned_weights_def fillna_def reindex_columns_def reindex_index_def Let_def
      aligned_row_def weight_or_zero_def comp_def fun_eq_iff split: option.splits)

lemma columns_aligned_weights: "columns (aligned_weights prices w) = columns prices"
  by (simp add: aligned_weights_def fillna_def reindex_columns_def Let_def)

lemma rows_lagged_weights:
  "rows (lagged_weights prices w)
     = (case rows prices of
          [] \<Rightarrow> []
        | x # xs \<Rightarrow> zip (map fst (rows prices))
            ((\<lambda>c. Fin 0) # butlast (map (aligned_row prices w) (map fst (rows prices)))))"
proof (cases "rows prices")
  case Nil
  then show ?thesis
    by (simp add: lagged_weights_def fillna_def shift_def rows_aligned_weights)
next
  case (Cons x xs)
  have nn: "aligned_row prices w t c \<noteq> NaN" for t c
    by (simp add: aligned_row_def weight_or_zero_def split: option.split)
  have f: "map (\<lambda>(t, r). (t, \<lambda>c. if r c = NaN then Fin 0 else r c)) (zip ts rs)
         = zip ts (map (\<lambda>r c. if r c = NaN then Fin 0 else r c) rs)" for ts :: "timestamp list" and rs :: "(string \<Rightarrow> val) list"
    by (simp add: zip_map2 case_prod_unfold)
  show ?thesis using Cons
    by (simp add: lagged_weights_def fillna_def shift_def rows_aligned_weights comp_def f
        map_butlast[symmetric] nn)
qed

lemma map_fst_lagged_weights: "map fst (rows (lagged_weights prices w)) = map fst (rows prices)"
proof (cases "rows prices")
  case Nil
  then show ?thesis by (simp add: rows_lagged_weights)
next
  case (Cons x xs)
  then have "length (map fst (rows prices))
      = length ((\<lambda>c. Fin 0) # butlast (map (aligned_row prices w) (map fst (rows prices))))"
    by simp
  then have "map fst (zip (map fst (rows prices))
      ((\<lambda>c. Fin 0) # butlast (map (aligned_row prices w) (map fst (rows prices)))))
      = map fst (rows prices)"
    by (rule map_fst_zip)
  then show ?thesis using Cons by (simp only: rows_lagged_weights list.case)
qed

lemma length_rows_lagged_weights: "length (rows (lagged_weights prices w)) = length (rows prices)"
  using map_fst_lagged_weights[of prices w] by (metis length_map)

lemma length_rows_pct_change: "length (rows (pct_change pad df)) = length (rows df)"
  using map_fst_pct_change[of pad df] by (metis length_map)

lemma snd_lagged_weights_0:
  "rows prices \<noteq> [] \<Longrightarrow> snd (rows (lagged_weights prices w) ! 0) = (\<lambda>c. Fin 0)"
  by (cases "rows prices") (simp_all add: rows_lagged_weights)

lemma snd_aligned_weights:
  "i < length (rows prices) \<Longrightarrow>
     snd (rows (aligned_weights prices w) ! i) = aligned_row prices w (fst (rows prices ! i))"
  by (simp add: rows_aligned_weights)

lemma snd_lagged_weights_Suc:
  assumes "Suc i < length (rows prices)"
  shows "snd (rows (lagged_weights prices w) ! Suc i)
           = aligned_row prices w (fst (rows prices ! i))"
proof -
  let ?ds = "map fst (rows prices)"
  let ?as = "map (aligned_row prices w) ?ds"
  obtain x xs where c: "rows prices = x # xs" using assms by (cases "rows prices") auto
  have l: "length ?ds = length ((\<lambda>c. Fin 0) # butlast ?as)" using c by simp
  have "rows (lagged_weights prices w) = zip ?ds ((\<lambda>c. Fin 0) # butlast ?as)"
    using c by (simp only: rows_lagged_weights list.case)
  then have "snd (rows (lagged_weights prices w) ! Suc i) = ((\<lambda>c. Fin 0) # butlast ?as) ! Suc i"
    using assms l by simp
  also have "\<dots> = butlast ?as ! i" by simp
  also have "\<dots> = ?as ! i" using assms by (simp add: nth_butlast)
  also have "\<dots> = aligned_row prices w (fst (rows prices ! i))" using assms by simp
  finally show ?thesis .
qed

lemma portfolio_returns_map2:
  "portfolio_returns pad prices w
     = map2 (\<lambda>(t, r) (u, s). (t, row_sum (map (\<lambda>c. vmul (r c) (s c)) (columns prices))))
         (rows (pct_change pad prices)) (rows (lagged_weights prices w))"
  by (simp add: portfolio_returns_def Let_def sum_axis1_def frame_op_def columns_pct_change
      case_prod_unfold)

lemma length_portfolio_returns:
  "length (portfolio_returns pad prices w) = length (rows prices)"
  by (simp add: portfolio_returns_map2 length_rows_pct_change length_rows_lagged_weights)

lemma portfolio_returns_nth:
  assumes "i < length (rows prices)"
  shows "portfolio_returns pad prices w ! i
     = (fst (rows prices ! i),
        row_sum (map (\<lambda>c. vmul (snd (rows (pct_change pad prices) ! i) c)
                               (snd (rows (lagged_weights prices w) ! i) c))
                     (columns prices)))"
proof -
  have "fst (rows (pct_change pad prices) ! i) = map fst (rows (pct_change pad prices)) ! i"
    using assms by (simp add: length_rows_pct_change)
  then have "fst (rows (pct_change pad prices) ! i) = fst (rows prices ! i)"
    using assms by (simp add: map_fst_pct_change)
  then show ?thesis using assms
    by (simp add: portfolio_returns_map2 length_rows_pct_change length_rows_lagged_weights
        case_prod_unfold)
qed

lemma map_fst_portfolio_returns:
  "map fst (portfolio_returns pad prices w) = map fst (rows prices)"
  by (rule nth_equalityI)
    (simp_all add: length_portfolio_returns portfolio_returns_nth)

lemma conj_repeat: "(A \<and> B \<and> A) = (A \<and> B)"
  by blast

lemma aligned_weights_only_columns:
  "aligned_weights prices (only_columns (columns prices) w) = aligned_weights prices w"
  by (simp add: aligned_weights_def only_columns_def reindex_columns_def
      reindex_index_def fillna_def Let_def conj_repeat)

lemma lagged_weights_only_columns:
  "lagged_weights prices (only_columns (columns prices) w) = lagged_weights prices w"
  by (simp only: lagged_weights_def aligned_weights_only_columns)

lemma aligned_lagged_stages:
  "columns (aligned_weights prices w) = columns prices
   \<and> map fst (rows (aligned_weights prices w)) = map fst (rows prices)
   \<and> map fst (rows (lagged_weights prices w)) = map fst (rows prices)
   \<and> (\<forall>i < length (rows prices). \<forall>c \<in> set (columns prices).
         snd (rows (aligned_weights prices w) ! i) c = weight_or_zero w (fst (rows prices ! i)) c)
   \<and> (rows prices \<noteq> [] \<longrightarrow> snd (rows (lagged_weights prices w) ! 0) = (\<lambda>c. Fin 0))
   \<and> (\<forall>i. Suc i < length (rows prices) \<longrightarrow>
         snd (rows (lagged_weights prices w) ! Suc i) = snd (rows (aligned_weights prices w) ! i)
         \<and> portfolio_returns pad prices w ! Suc i
             = (fst (rows prices ! Suc i),
                row_sum (map (\<lambda>c. vmul (snd (rows (pct_change pad prices) ! Suc i) c)
                                       (weight_or_zero w (fst (rows prices ! i)) c))
                             (columns prices))))
   \<and> lagged_weights prices (only_columns (columns prices) w) = lagged_weights prices w"
proof (intro conjI allI impI ballI)
  show "columns (aligned_weights prices w) = columns prices"
    by (rule columns_aligned_weights)
  show "map fst (rows (aligned_weights prices w)) = map fst (rows prices)"
    by (simp add: rows_aligned_weights comp_def)
  show "map fst (rows (lagged_weights prices w)) = map fst (rows prices)"
    by (rule map_fst_lagged_weights)
  show "lagged_weights prices (only_columns (columns prices) w) = lagged_weights prices w"
    by (rule lagged_weights_only_columns)
next
  fix i c assume "i < length (rows prices)" "c \<in> set (columns prices)"
  then show "snd (rows (aligned_weights prices w) ! i) c
      = weight_or_zero w (fst (rows prices ! i)) c"
    by (simp add: snd_aligned_weights aligned_row_def)
next
  assume "rows prices \<noteq> []"
  then show "snd (rows (lagged_weights prices w) ! 0) = (\<lambda>c. Fin 0)"
    by (rule snd_lagged_weights_0)
next
  fix i assume i: "Suc i < length (rows prices)"
  then show "snd (rows (lagged_weights prices w) ! Suc i)
      = snd (rows (aligned_weights prices w) ! i)"
    by (simp add: snd_lagged_weights_Suc snd_aligned_weights)
  have "map (\<lambda>c. vmul (snd (rows (pct_change pad prices) ! Suc i) c)
                  (snd (rows (lagged_weights prices w) ! Suc i) c)) (columns prices)
      = map (\<lambda>c. vmul (snd (rows (pct_change pad prices) ! Suc i) c)
                  (weight_or_zero w (fst (rows prices ! i)) c)) (columns prices)"
    using i by (intro map_cong refl) (simp add: snd_lagged_weights_Suc aligned_row_def)
  then show "portfolio_returns pad prices w ! Suc i
      = (fst (rows prices ! Suc i),
         row_sum (map (\<lambda>c. vmul (snd (rows (pct_change pad prices) ! Suc i) c)
                                (weight_or_zero w (fst (rows prices ! i)) c))
                      (columns prices)))"
    using i by (simp only: portfolio_returns_nth)
qed

lemma map_of_zero_row:
  "map_of (map (\<lambda>(u, r). if u = t then (u, z) else (u, r)) xs) u
     = (if u = t then map_option (\<lambda>r. z) (map_of xs u) else map_of xs u)"
  by (induction xs) auto

lemma weight_or_zero_zero_row:
  "weight_or_zero (zero_row t w) u c = (if u = t then Fin 0 else weight_or_zero w u c)"
  by (simp add: weight_or_zero_def zero_row_def map_of_zero_row split: option.split)

lemma aligned_row_zero_row:
  "u \<noteq> t \<Longrightarrow> aligned_row prices (zero_row t w) u = aligned_row prices w u"
  by (rule ext) (simp add: aligned_row_def weight_or_zero_zero_row)

lemma portfolio_returns_zero_row:
  assumes "i < length (rows prices)" and "i = 0 \<or> fst (rows prices ! (i - 1)) \<noteq> t"
  shows "portfolio_returns pad prices (zero_row t w) ! i = portfolio_returns pad prices w ! i"
proof -
  have "snd (rows (lagged_weights prices (zero_row t w)) ! i)
      = snd (rows (lagged_weights prices w) ! i)"
  proof (cases i)
    case 0
    with assms(1) have "rows prices \<noteq> []" by auto
    then show ?thesis using 0 by (simp add: snd_lagged_weights_0)
  next
    case (Suc j)
    with assms show ?thesis by (simp add: snd_lagged_weights_Suc aligned_row_zero_row)
  qed
  then show ?thesis using assms(1) by (simp add: portfolio_returns_nth)
qed

lemma filter_le_takeWhile:
  fixes xs :: "'b series"
  shows "sorted (map fst xs) \<Longrightarrow>
     filter (\<lambda>(u, v). u \<le> t) xs = takeWhile (\<lambda>(u, v). u \<le> t) xs"
proof (induction xs)
  case Nil show ?case by simp
next
  case (Cons x xs)
  show ?case
  proof (cases "fst x \<le> t")
    case True
    with Cons show ?thesis by (simp add: case_prod_unfold)
  next
    case False
    with Cons.prems have "\<forall>y \<in> set xs. \<not> fst y \<le> t" by auto
    then have "filter (\<lambda>(u, v). u \<le> t) xs = []"
      by (simp add: filter_empty_conv case_prod_unfold)
    with False show ?thesis by (simp add: case_prod_unfold)
  qed
qed

lemma map_fst_cumprod_from: "map fst (cumprod_from acc xs) = map fst xs"
  by (induction acc xs rule: cumprod_from.induct) simp_all

lemma takeWhile_cumprod_from:
  "takeWhile (\<lambda>(u, v). u \<le> t) (cumprod_from acc xs)
     = cumprod_from acc (takeWhile (\<lambda>(u, v). u \<le> t) xs)"
  by (induction acc xs rule: cumprod_from.induct) simp_all

lemma filter_le_cumprod:
  assumes "sorted (map fst xs)"
  shows "filter (\<lambda>(u, v). u \<le> t) (cumprod xs) = cumprod (filter (\<lambda>(u, v). u \<le> t) xs)"
proof -
  have "sorted (map fst (cumprod xs))" using assms by (simp add: cumprod_def map_fst_cumprod_from)
  then have "filter (\<lambda>(u, v). u \<le> t) (cumprod xs) = takeWhile (\<lambda>(u, v). u \<le> t) (cumprod xs)"
    by (rule filter_le_takeWhile)
  also have "\<dots> = cumprod (takeWhile (\<lambda>(u, v). u \<le> t) xs)"
    by (simp add: cumprod_def takeWhile_cumprod_from)
  also have "\<dots> = cumprod (filter (\<lambda>(u, v). u \<le> t) xs)"
    using assms by (simp add: filter_le_takeWhile)
  finally show ?thesis .
qed

lemma filter_le_add_scalar:
  "filter (\<lambda>(u, v). u \<le> t) (add_scalar a xs) = add_scalar a (filter (\<lambda>(u, v). u \<le> t) xs)"
  by (induction xs) (auto simp: add_scalar_def)

lemma filter_le_dropna:
  "filter (\<lambda>(u, v). u \<le> t) (dropna xs) = dropna (filter (\<lambda>(u, v). u \<le> t) xs)"
  by (induction xs) (auto simp: dropna_def)

lemma map_fst_add_scalar: "map fst (add_scalar a xs) = map fst xs"
  by (induction xs) (auto simp: add_scalar_def)

lemma filter_le_equity:
  assumes "sorted (map fst xs)"
  shows "filter (\<lambda>(u, v). u \<le> t) (cumprod (add_scalar a (dropna xs)))
           = cumprod (add_scalar a (dropna (filter (\<lambda>(u, v). u \<le> t) xs)))"
proof -
  have "sorted (map fst (dropna xs))" using assms by (simp add: dropna_def sorted_filter_fst)
  then have "sorted (map fst (add_scalar a (dropna xs)))" by (simp only: map_fst_add_scalar)
  then show ?thesis by (simp only: filter_le_cumprod filter_le_add_scalar filter_le_dropna)
qed

lemma filter_cong_nth:
  "length xs = length ys \<Longrightarrow>
   (\<forall>i < length xs. P (xs ! i) \<or> P (ys ! i) \<longrightarrow> xs ! i = ys ! i) \<Longrightarrow>
   filter P xs = filter P ys"
proof (induction xs ys rule: list_induct2)
  case Nil show ?case by simp
next
  case (Cons x xs y ys)
  have h: "P x \<or> P y \<Longrightarrow> x = y"
    using Cons.prems[rule_format, of 0] by simp
  have "\<forall>i < length xs. P (xs ! i) \<or> P (ys ! i) \<longrightarrow> xs ! i = ys ! i"
  proof (intro allI impI)
    fix i assume "i < length xs" "P (xs ! i) \<or> P (ys ! i)"
    then show "xs ! i = ys ! i" using Cons.prems[rule_format, of "Suc i"] by simp
  qed
  then have t: "filter P xs = filter P ys" by (rule Cons.IH)
  show ?case
  proof (cases "P x \<or> P y")
    case True
    then have "x = y" by (rule h)
    then show ?thesis using t by simp
  next
    case False
    then show ?thesis using t by simp
  qed
qed

lemma dates_clip_history:
  "sorted (map fst (rows (clip_history tie prices start_date)))"
  "distinct (map fst (rows prices)) \<Longrightarrow>
     distinct (map fst (rows (clip_history tie prices start_date)))"
proof -
  have m: "map fst (dropWhile (\<lambda>(t, r). t < s) xs) = dropWhile (\<lambda>t. t < s) (map fst xs)"
    for s and xs :: "(string \<Rightarrow> val) series"
    by (simp add: dropWhile_map comp_def case_prod_unfold)
  have s: "sorted (map fst (sort_index tie (rows prices)))" by (rule sorted_sort_index)
  show "sorted (map fst (rows (clip_history tie prices start_date)))"
    using s by (simp add: clip_history_def Let_def loc_from_def m sorted_dropWhile
        split: option.split)
  assume "distinct (map fst (rows prices))"
  then have "distinct (map fst (sort_index tie (rows prices)))"
    by (simp only: distinct_dates_sort_index)
  then show "distinct (map fst (rows (clip_history tie prices start_date)))"
    by (simp add: clip_history_def Let_def loc_from_def m split: option.split)
qed

lemma portfolio_returns_upto:
  assumes s: "sorted (map fst (rows prices))" and d: "distinct (map fst (rows prices))"
  shows "filter (\<lambda>(u, v). u \<le> t) (portfolio_returns pad prices (zero_row t w))
           = filter (\<lambda>(u, v). u \<le> t) (portfolio_returns pad prices w)"
proof (rule filter_cong_nth)
  show "length (portfolio_returns pad prices (zero_row t w))
      = length (portfolio_returns pad prices w)"
    by (simp add: length_portfolio_returns)
  show "\<forall>i < length (portfolio_returns pad prices (zero_row t w)).
      (case portfolio_returns pad prices (zero_row t w) ! i of (u, v) \<Rightarrow> u \<le> t)
      \<or> (case portfolio_returns pad prices w ! i of (u, v) \<Rightarrow> u \<le> t)
      \<longrightarrow> portfolio_returns pad prices (zero_row t w) ! i = portfolio_returns pad prices w ! i"
  proof (intro allI impI)
    fix i
    assume i: "i < length (portfolio_returns pad prices (zero_row t w))"
      and le: "(case portfolio_returns pad prices (zero_row t w) ! i of (u, v) \<Rightarrow> u \<le> t)
        \<or> (case portfolio_returns pad prices w ! i of (u, v) \<Rightarrow> u \<le> t)"
    from i have i': "i < length (rows prices)" by (simp add: length_portfolio_returns)
    from le i' have dt: "fst (rows prices ! i) \<le> t" by (simp add: portfolio_returns_nth)
    have "i = 0 \<or> fst (rows prices ! (i - 1)) \<noteq> t"
    proof (cases i)
      case 0 then show ?thesis by simp
    next
      case (Suc j)
      have "sorted_wrt (<) (map fst (rows prices))"
        using s d by (simp only: strict_sorted_iff simp_thms)
      then have "map fst (rows prices) ! j < map fst (rows prices) ! i"
        using i' Suc sorted_wrt_nth_less[of "(<)" "map fst (rows prices)" j i] by simp
      then have "fst (rows prices ! j) < fst (rows prices ! i)" using i' Suc by simp
      with dt Suc show ?thesis by simp
    qed
    with i' show "portfolio_returns pad prices (zero_row t w) ! i = portfolio_returns pad prices w ! i"
      by (rule portfolio_returns_zero_row)
  qed
qed

text \<open>
  C3. Zeroing the weight row at date \<open>t\<close> changes the portfolio return at no position
  other than the one that follows \<open>t\<close>: the returns of the two runs agree at the first
  date and at every date whose predecessor is not \<open>t\<close>. For a non-empty price table with
  one row per date both runs return an equity curve, and the two curves hold the same
  values at every date at or before \<open>t\<close>.
\<close>

theorem lookahead_invariant:
  "(\<forall>i < length (rows (clip_history tie prices start_date)).
       i = 0 \<or> fst (rows (clip_history tie prices start_date) ! (i - 1)) \<noteq> t \<longrightarrow>
       portfolio_returns pad (clip_history tie prices start_date) (zero_row t w) ! i
         = portfolio_returns pad (clip_history tie prices start_date) w ! i)
   \<and> (\<not> df_empty prices \<and> distinct (map fst (rows prices)) \<longrightarrow>
        (\<exists>e e'. run_backtest_fast_daily tie pad prices w start_date = Inr e
           \<and> run_backtest_fast_daily tie pad prices (zero_row t w) start_date = Inr e'
           \<and> filter (\<lambda>(u, v). u \<le> t) e' = filter (\<lambda>(u, v). u \<le> t) e))"
proof (intro conjI allI impI)
  fix i
  assume "i < length (rows (clip_history tie prices start_date))"
    and "i = 0 \<or> fst (rows (clip_history tie prices start_date) ! (i - 1)) \<noteq> t"
  then show "portfolio_returns pad (clip_history tie prices start_date) (zero_row t w) ! i
         = portfolio_returns pad (clip_history tie prices start_date) w ! i"
    by (rule portfolio_returns_zero_row)
next
  assume a: "\<not> df_empty prices \<and> distinct (map fst (rows prices))"
  let ?P = "clip_history tie prices start_date"
  have s: "sorted (map fst (rows ?P))" and d: "distinct (map fst (rows ?P))"
    using a dates_clip_history(1)[of tie prices start_date]
      dates_clip_history(2)[of prices tie start_date] by simp_all
  have sr: "sorted (map fst (portfolio_returns pad ?P x))" for x
    using s by (simp only: map_fst_portfolio_returns)
  have "filter (\<lambda>(u, v). u \<le> t)
          (cumprod (add_scalar (Fin 1) (dropna (portfolio_returns pad ?P (zero_row t w)))))
      = filter (\<lambda>(u, v). u \<le> t)
          (cumprod (add_scalar (Fin 1) (dropna (portfolio_returns pad ?P w))))"
    by (simp only: filter_le_equity[OF sr] portfolio_returns_upto[OF s d])
  moreover have "run_backtest_fast_daily tie pad prices x start_date
      = Inr (cumprod (add_scalar (Fin 1) (dropna (portfolio_returns pad ?P x))))" for x
    using a by (simp only: run_backtest_fast_daily_def Let_def if_False)
  ultimately show "\<exists>e e'. run_backtest_fast_daily tie pad prices w start_date = Inr e
           \<and> run_backtest_fast_daily tie pad prices (zero_row t w) start_date = Inr e'
           \<and> filter (\<lambda>(u, v). u \<le> t) e' = filter (\<lambda>(u, v). u \<le> t) e"
    by blast
qed

text \<open>
  C10. The emptiness check comes before the clipping to \<open>start_date\<close>: the function
  fails if and only if the price table passed in is empty, and then with
  \<open>EmptyInput\<close>; for a non-empty price table and a \<open>start_date\<close> after its last date
  it returns the empty equity curve.
\<close>

theorem empty_check_precedes_clip:
  "(df_empty prices \<longrightarrow> run_backtest_fast_daily tie pad prices w start_date = Inl EmptyInput)
   \<and> ((\<exists>e. run_backtest_fast_daily tie pad prices w start_date = Inl e) \<longleftrightarrow> df_empty prices)
   \<and> (\<not> df_empty prices \<and> (\<forall>u \<in> dates (rows prices). u < ts) \<longrightarrow>
        run_backtest_fast_daily tie pad prices w (Some ts) = Inr [])"
proof (intro conjI impI)
  assume "df_empty prices"
  then show "run_backtest_fast_daily tie pad prices w start_date = Inl EmptyInput"
    by (simp add: run_backtest_fast_daily_def)
next
  show "(\<exists>e. run_backtest_fast_daily tie pad prices w start_date = Inl e) \<longleftrightarrow> df_empty prices"
    by (simp add: run_backtest_fast_daily_def Let_def)
next
  assume a: "\<not> df_empty prices \<and> (\<forall>u \<in> dates (rows prices). u < ts)"
  then have "\<forall>x \<in> set (sort_index tie (rows prices)). case x of (t, r) \<Rightarrow> t < ts"
    by (auto simp: set_sort_index dates_def)
  then have "rows (clip_history tie prices (Some ts)) = []"
    by (simp add: clip_history_def Let_def loc_from_def)
  then have "length (portfolio_returns pad (clip_history tie prices (Some ts)) w) = 0"
    by (simp only: length_portfolio_returns list.size)
  then have "portfolio_returns pad (clip_history tie prices (Some ts)) w = []" by simp
  then show "run_backtest_fast_daily tie pad prices w (Some ts) = Inr []"
    using a by (simp add: run_backtest_fast_daily_def Let_def dropna_def add_scalar_def
        cumprod_def)
qed

lemma scenario_not_empty: "\<not> df_empty scenario_prices"
  by (simp add: df_empty_def scenario_prices_def)

lemma scenario_rows:
  "rows scenario_prices
     = [(day 0, \<lambda>c. Fin 100), (day 1, \<lambda>c. Fin 110), (day 2, \<lambda>c. Fin 121)]"
  "columns scenario_prices = [''A'']"
  by (simp_all add: scenario_prices_def)

theorem empty_check_precedes_clip_witness:
  "run_backtest_fast_daily stable_ties True \<lparr>columns = [''A''], rows = []\<rparr> scenario_weights (Some (day 3))
     = Inl EmptyInput
   \<and> run_backtest_fast_daily stable_ties True scenario_prices scenario_weights (Some (day 3)) = Inr []"
proof -
  have e: "df_empty \<lparr>columns = [''A''], rows = []\<rparr>" by (simp add: df_empty_def)
  have b: "\<forall>u \<in> dates (rows scenario_prices). u < day 3"
    by (simp add: dates_def scenario_rows day_less)
  from empty_check_precedes_clip
    [of "\<lparr>columns = [''A''], rows = []\<rparr>" stable_ties True scenario_weights "Some (day 3)" "day 3"] e
  have "run_backtest_fast_daily stable_ties True \<lparr>columns = [''A''], rows = []\<rparr> scenario_weights
      (Some (day 3)) = Inl EmptyInput"
    by blast
  moreover from empty_check_precedes_clip
    [of scenario_prices stable_ties True scenario_weights "Some (day 3)" "day 3"] scenario_not_empty b
  have "run_backtest_fast_daily stable_ties True scenario_prices scenario_weights (Some (day 3)) = Inr []"
    by blast
  ultimately show ?thesis by blast
qed

theorem lookahead_invariant_witness:
  "portfolio_returns True (clip_history stable_ties scenario_prices None) (zero_row (day 1) scenario_weights) ! 1
     = portfolio_returns True (clip_history stable_ties scenario_prices None) scenario_weights ! 1
   \<and> (\<exists>e e'. run_backtest_fast_daily stable_ties True scenario_prices scenario_weights None = Inr e
         \<and> run_backtest_fast_daily stable_ties True scenario_prices (zero_row (day 1) scenario_weights) None
             = Inr e'
         \<and> filter (\<lambda>(u, v). u \<le> day 1) e' = filter (\<lambda>(u, v). u \<le> day 1) e)"
proof -
  note t = lookahead_invariant[of stable_ties scenario_prices None "day 1" True scenario_weights]
  have r: "rows (clip_history stable_ties scenario_prices None) = rows scenario_prices"
    by (simp add: clip_history_def Let_def sort_index_strictly_sorted scenario_rows day_less)
  have d: "distinct (map fst (rows scenario_prices))"
    by (simp add: scenario_rows day_eq)
  have "(1::nat) < length (rows (clip_history stable_ties scenario_prices None))
      \<and> fst (rows (clip_history stable_ties scenario_prices None) ! (1 - 1)) \<noteq> day 1"
    by (simp add: r scenario_rows day_eq)
  with t have "portfolio_returns True (clip_history stable_ties scenario_prices None)
        (zero_row (day 1) scenario_weights) ! 1
     = portfolio_returns True (clip_history stable_ties scenario_prices None) scenario_weights ! 1"
    by blast
  moreover from t scenario_not_empty d
  have "\<exists>e e'. run_backtest_fast_daily stable_ties True scenario_prices scenario_weights None = Inr e
         \<and> run_backtest_fast_daily stable_ties True scenario_prices (zero_row (day 1) scenario_weights) None
             = Inr e'
         \<and> filter (\<lambda>(u, v). u \<le> day 1) e' = filter (\<lambda>(u, v). u \<le> day 1) e"
    by blast
  ultimately show ?thesis by blast
qed

lemma scenario_clip: "clip_history tie scenario_prices None = scenario_prices"
  by (simp add: clip_history_def Let_def sort_index_strictly_sorted scenario_prices_def day_less)

lemma scenario_returns:
  "portfolio_returns pad scenario_prices scenario_weights
     = [(day 0, Fin 0), (day 1, Fin (1 / 10)), (day 2, Fin (1 / 10))]"
  by (cases pad)
    (simp_all add: portfolio_returns_def pct_change_def ffill_def shift_def frame_op_def
      frame_sub_scalar_def lagged_weights_def aligned_weights_def fillna_def
      reindex_index_def reindex_columns_def sum_axis1_def row_sum_def vsub_def Let_def
      scenario_prices_def scenario_weights_def day_eq)

text \<open>
  C1 does not hold of the code. In the scenario the function returns three points,
  1.0 on the initial date and then 1.10 and 1.21, whichever way \<open>pct_change\<close> fills: the
  products of the initial date are all missing, \<open>sum(axis=1)\<close> skips them and gives
  the portfolio return 0, a defined value, and \<open>dropna()\<close> drops nothing.
\<close>

theorem scenario_keeps_initial_date:
  "run_backtest_fast_daily tie pad scenario_prices scenario_weights None
     = Inr [(day 0, Fin 1), (day 1, Fin (11 / 10)), (day 2, Fin (121 / 100))]"
  by (simp add: run_backtest_fast_daily_def scenario_not_empty scenario_clip scenario_returns
      dropna_def add_scalar_def cumprod_def Let_def)

lemma columns_clip_history: "columns (clip_history tie prices start_date) = columns prices"
  by (simp add: clip_history_def Let_def split: option.split)

text \<open>
  C2. For every non-empty price table and every weights matrix, with \<open>P\<close> the price
  table sorted and clipped to the start date, the equity curve is computed from the
  portfolio returns over \<open>P\<close>. The aligned weights have the columns and the dates of
  \<open>P\<close>, and their cell at a date and an instrument of the price
  table is the weight the matrix records there, 0 when the date, the instrument or the
  cell is absent. The lagged weights have the same dates; their first row is 0, and every
  later row is the aligned row of the date before, so the portfolio return of a date sums,
  over the instruments of the price table, the return realized into that date times the
  weight recorded at the date before. Instruments of the matrix that the price table lacks
  play no part: dropping their columns leaves the lagged weights as they are.
\<close>

theorem weights_aligned_then_lagged:
  assumes "\<not> df_empty prices" and "P = clip_history tie prices start_date"
  shows "run_backtest_fast_daily tie pad prices w start_date
           = Inr (cumprod (add_scalar (Fin 1) (dropna (portfolio_returns pad P w))))
   \<and> columns (aligned_weights P w) = columns prices
   \<and> map fst (rows (aligned_weights P w)) = map fst (rows P)
   \<and> map fst (rows (lagged_weights P w)) = map fst (rows P)
   \<and> (\<forall>i < length (rows P). \<forall>c \<in> set (columns prices).
         snd (rows (aligned_weights P w) ! i) c = weight_or_zero w (fst (rows P ! i)) c)
   \<and> (rows P \<noteq> [] \<longrightarrow> snd (rows (lagged_weights P w) ! 0) = (\<lambda>c. Fin 0))
   \<and> (\<forall>i. Suc i < length (rows P) \<longrightarrow>
         snd (rows (lagged_weights P w) ! Suc i) = snd (rows (aligned_weights P w) ! i)
         \<and> portfolio_returns pad P w ! Suc i
             = (fst (rows P ! Suc i),
                row_sum (map (\<lambda>c. vmul (snd (rows (pct_change pad P) ! Suc i) c)
                                       (weight_or_zero w (fst (rows P ! i)) c))
                             (columns prices))))
   \<and> lagged_weights P (only_columns (columns prices) w) = lagged_weights P w"
proof -
  have c: "columns P = columns prices" using assms(2) by (simp only: columns_clip_history)
  have r: "run_backtest_fast_daily tie pad prices w start_date
           = Inr (cumprod (add_scalar (Fin 1) (dropna (portfolio_returns pad P w))))"
    using assms by (simp only: run_backtest_fast_daily_def Let_def if_False)
  note s = aligned_lagged_stages[of P w pad, unfolded c]
  from r s show ?thesis by (rule conjI)
qed

theorem weights_aligned_then_lagged_witness:
  "snd (rows (aligned_weights scenario_prices scenario_weights) ! 0) ''A'' = Fin 1
   \<and> snd (rows (lagged_weights scenario_prices scenario_weights) ! 0) = (\<lambda>c. Fin 0)
   \<and> snd (rows (lagged_weights scenario_prices scenario_weights) ! Suc 0)
       = snd (rows (aligned_weights scenario_prices scenario_weights) ! 0)
   \<and> run_backtest_fast_daily stable_ties True scenario_prices scenario_weights None
       = Inr (cumprod (add_scalar (Fin 1)
           (dropna (portfolio_returns True scenario_prices scenario_weights))))"
proof -
  have p: "scenario_prices = clip_history stable_ties scenario_prices None"
    by (simp add: clip_history_def Let_def sort_index_strictly_sorted scenario_prices_def day_less)
  note t = weights_aligned_then_lagged
      [OF scenario_not_empty p, of True scenario_weights]
  have l: "0 < length (rows scenario_prices)" "Suc 0 < length (rows scenario_prices)"
    "''A'' \<in> set (columns scenario_prices)" "rows scenario_prices \<noteq> []"
    by (simp_all add: scenario_rows)
  have w: "weight_or_zero scenario_weights (fst (rows scenario_prices ! 0)) ''A'' = Fin 1"
    by (simp add: weight_or_zero_def scenario_weights_def scenario_rows)
  from t l have "snd (rows (aligned_weights scenario_prices scenario_weights) ! 0) ''A''
      = weight_or_zero scenario_weights (fst (rows scenario_prices ! 0)) ''A''"
    by blast
  with w have a: "snd (rows (aligned_weights scenario_prices scenario_weights) ! 0) ''A'' = Fin 1"
    by simp
  from t l have b: "snd (rows (lagged_weights scenario_prices scenario_weights) ! 0) = (\<lambda>c. Fin 0)"
    by blast
  from t l have c: "snd (rows (lagged_weights scenario_prices scenario_weights) ! Suc 0)
       = snd (rows (aligned_weights scenario_prices scenario_weights) ! 0)"
    by blast
  from t have d: "run_backtest_fast_daily stable_ties True scenario_prices scenario_weights None
       = Inr (cumprod (add_scalar (Fin 1)
           (dropna (portfolio_returns True scenario_prices scenario_weights))))"
    by blast
  from a b c d show ?thesis by blast
qed

end
